theory Spec2Isabelle
  imports Main "HOL-Library.Multiset" "HOL-Library.Product_Lexorder"
begin

section \<open>Python values shared by the scripts\<close>

text \<open>
  Exceptions of the Python scripts that the models below make explicit.
  \<open>ScrapeError\<close> stands for any exception raised while a detail page is loaded
  or parsed (selenium and BeautifulSoup errors); \<open>UnboundLocalError\<close> is raised by
  Python when a local variable is read before any assignment; \<open>ValueError\<close> is
  also what \<open>range\<close> raises for a step of zero, and \<open>UnicodeDecodeError\<close> is one
  of its subclasses; \<open>OSError\<close> is what \<open>open\<close>, \<open>read\<close> and \<open>write\<close> raise when
  the file system refuses (a directory in place of the file, no permission, a
  full disk).
\<close>

datatype error = ValueError | KeyError | ZeroDivisionError | OSError | ScrapeError | UnboundLocalError

subsection \<open>Text: \<open>str.strip\<close> and \<open>int(str)\<close>\<close>

text \<open>
  Strings are ASCII text. \<open>isspace\<close> is Python's \<open>str.isspace\<close> on one ASCII
  character: tab, line feed, vertical tab, form feed, carriage return, the four
  separators 28 to 31, and the space.
\<close>

definition isspace :: "char \<Rightarrow> bool" where
  "isspace c = (let n = (of_char c :: nat) in (9 \<le> n \<and> n \<le> 13) \<or> (28 \<le> n \<and> n \<le> 32))"

definition isdigit :: "char \<Rightarrow> bool" where
  "isdigit c = (let n = (of_char c :: nat) in 48 \<le> n \<and> n \<le> 57)"

definition digit_val :: "char \<Rightarrow> nat" where
  "digit_val c = (of_char c :: nat) - 48"

definition strip :: "string \<Rightarrow> string" where
  "strip s = rev (dropWhile isspace (rev (dropWhile isspace s)))"

text \<open>
  The digit part of an integer literal accepted by \<open>int(str)\<close>: decimal digits,
  with single underscores allowed between two digits. \<open>prev\<close> tells whether the
  previous character was a digit.
\<close>

fun int_digits :: "nat \<Rightarrow> bool \<Rightarrow> string \<Rightarrow> nat option" where
  "int_digits acc prev [] = (if prev then Some acc else None)"
| "int_digits acc prev (c # cs) =
     (if isdigit c then int_digits (10 * acc + digit_val c) True cs
      else if c = CHR ''_'' \<and> prev then int_digits acc False cs
      else None)"

text \<open>
  \<open>int(s)\<close> in base ten: surrounding whitespace is dropped, one optional sign,
  then the digits. Anything else raises \<open>ValueError\<close>.
\<close>

definition py_int :: "string \<Rightarrow> error + int" where
  "py_int s =
     (case strip s of
        [] \<Rightarrow> Inl ValueError
      | c # cs \<Rightarrow>
          if c = CHR ''-'' then
            (case int_digits 0 False cs of None \<Rightarrow> Inl ValueError | Some n \<Rightarrow> Inr (- int n))
          else if c = CHR ''+'' then
            (case int_digits 0 False cs of None \<Rightarrow> Inl ValueError | Some n \<Rightarrow> Inr (int n))
          else
            (case int_digits 0 False (c # cs) of None \<Rightarrow> Inl ValueError | Some n \<Rightarrow> Inr (int n)))"

subsection \<open>Text: \<open>str(int)\<close>\<close>

text \<open>
  \<open>str(i)\<close> for an integer: the decimal digits, most significant first, after a
  minus sign when the integer is negative.
\<close>

definition digit_char :: "nat \<Rightarrow> char" where
  "digit_char d = char_of (48 + d)"

fun nat_str :: "nat \<Rightarrow> string" where
  "nat_str n = (if n < 10 then [digit_char n] else nat_str (n div 10) @ [digit_char (n mod 10)])"

definition py_str :: "int \<Rightarrow> string" where
  "py_str i = (if i < 0 then CHR ''-'' # nat_str (nat (- i)) else nat_str (nat i))"


section \<open>Checkpoint store (rag-processing/ukri-for-rag-stage-1-capture.py)\<close>

text \<open>
  The cursor file \<open>scraper_cursor.txt\<close> as \<open>get_cursor\<close> can meet it: no such path
  (\<open>Missing\<close>); a path that exists but that \<open>open\<close> or \<open>read\<close> refuses with an
  \<open>OSError\<close>, such as a directory or a file without read permission
  (\<open>Unreadable\<close>); a file whose bytes are not text in the default encoding, for
  which \<open>read\<close> raises \<open>UnicodeDecodeError\<close> (\<open>Undecodable\<close>); a file with some
  text (\<open>Content\<close>).
\<close>

datatype cursor_file = Missing | Unreadable | Undecodable | Content string

text \<open>
  \<open>get_cursor\<close>: when the path does not exist, 0. When it exists, the file is
  opened outside the \<open>try\<close>, and inside it \<open>int(f.read().strip())\<close> is evaluated
  with only \<open>ValueError\<close> caught and turned into 0. So an \<open>OSError\<close> of \<open>open\<close> or
  \<open>read\<close> leaves the function, a \<open>UnicodeDecodeError\<close> of \<open>read\<close> (a
  \<open>ValueError\<close>) gives 0, and so does a \<open>ValueError\<close> of \<open>int\<close>.
\<close>

definition get_cursor :: "cursor_file \<Rightarrow> error + int" where
  "get_cursor f =
     (case f of
        Missing \<Rightarrow> Inr 0
      | Unreadable \<Rightarrow> Inl OSError
      | Undecodable \<Rightarrow> Inr 0
      | Content txt \<Rightarrow>
          (case py_int (strip txt) of
             Inr n \<Rightarrow> Inr n
           | Inl e \<Rightarrow> if e = ValueError then Inr 0 else Inl e))"

text \<open>
  \<open>save_cursor\<close> opens the file for writing, which empties it, and then writes
  \<open>str(offset)\<close>; nothing is caught. What the file system does with one call is
  a \<open>save_result\<close>: the text is written (\<open>Written\<close>); \<open>open\<close> raises and the file
  is left as it was (\<open>OpenFailed\<close>); the file has been emptied and the call is
  left, by an exception of \<open>write\<close> or of the closing flush or by an interrupt,
  when only the first \<open>j\<close> characters have reached the file (\<open>WriteFailed j\<close>).
  The result is the exception that leaves the call, if any, and the file after
  it.
\<close>

datatype save_result = Written | OpenFailed | WriteFailed nat

definition save_cursor :: "save_result \<Rightarrow> int \<Rightarrow> cursor_file \<Rightarrow> error option \<times> cursor_file" where
  "save_cursor r offset f =
     (case r of
        Written \<Rightarrow> (None, Content (py_str offset))
      | OpenFailed \<Rightarrow> (Some OSError, f)
      | WriteFailed j \<Rightarrow> (Some OSError, Content (take j (py_str offset))))"

subsection \<open>The ingestion loop \<open>main\<close>\<close>

text \<open>
  What the loop does that can be observed from outside: an item of a batch has been
  handled to the end of its iteration (\<open>Checked\<close>, after \<open>check_for_protocol\<close> has
  returned, the record was written if a protocol was found, and the sleep is over),
  and \<open>save_cursor\<close> has returned from writing an offset (\<open>Saved\<close>).
\<close>

datatype 'r event = Checked 'r | Saved int

text \<open>
  How the loop is left: by \<open>break\<close> on an empty batch (\<open>Complete\<close>), by an
  exception or a \<open>KeyboardInterrupt\<close> that reaches the handlers around the loop
  (\<open>Interrupted\<close>), or not yet, when the iterations granted to the model are used
  up (\<open>Running\<close>).
\<close>

datatype outcome = Complete | Interrupted | Running

text \<open>
  The \<open>for item in records\<close> loop. \<open>check_for_protocol\<close> catches the exceptions of
  the page visit itself and reports "no protocol", so a failed visit still ends its
  iteration. \<open>process item\<close> is false when something else leaves the iteration
  (\<open>save_record\<close> cannot write, the user interrupts the sleep); the loop and the
  batch are then abandoned. The result is the events of the batch and whether the
  batch was finished.
\<close>

fun for_items :: "('r \<Rightarrow> bool) \<Rightarrow> 'r list \<Rightarrow> 'r event list \<times> bool" where
  "for_items process [] = ([], True)"
| "for_items process (item # records) =
     (if process item then
        (case for_items process records of (ev, ok) \<Rightarrow> (Checked item # ev, ok))
      else ([], False))"

text \<open>
  The \<open>while True\<close> loop. \<open>api\<close> is \<open>fetch_api_batch\<close> seen from the loop: at a
  start offset it gives the records returned (\<open>Some\<close>, the empty list also when
  the request fails, since \<open>fetch_api_batch\<close> catches every \<open>Exception\<close>), or
  \<open>None\<close> when a \<open>KeyboardInterrupt\<close> leaves the request or the pause before it.
  \<open>disk\<close> tells what the file system does with the save of an offset. After the
  items of a batch, \<open>current_offset\<close> is advanced and \<open>save_cursor\<close> is called; an
  exception of this call reaches the handlers around the loop with
  \<open>current_offset\<close> already advanced. The loop need not end, so the model counts
  iterations down; the result is the events, the value of \<open>current_offset\<close> at
  the end, the cursor file at the end, and how the loop was left.
\<close>

fun main_loop ::
  "nat \<Rightarrow> (int \<Rightarrow> 'r list option) \<Rightarrow> ('r \<Rightarrow> bool) \<Rightarrow> (int \<Rightarrow> save_result) \<Rightarrow> int \<Rightarrow> cursor_file
     \<Rightarrow> 'r event list \<times> int \<times> cursor_file \<times> outcome" where
  "main_loop 0 api process disk current_offset f = ([], current_offset, f, Running)"
| "main_loop (Suc k) api process disk current_offset f =
     (case api current_offset of
        None \<Rightarrow> ([], current_offset, f, Interrupted)
      | Some records \<Rightarrow>
          if records = [] then ([], current_offset, f, Complete)
          else
            (case for_items process records of
               (ev, False) \<Rightarrow> (ev, current_offset, f, Interrupted)
             | (ev, True) \<Rightarrow>
                 (let new_offset = current_offset + int (length records) in
                  (case save_cursor (disk new_offset) new_offset f of
                     (Some e, f') \<Rightarrow> (ev, new_offset, f', Interrupted)
                   | (None, f') \<Rightarrow>
                       (case main_loop k api process disk new_offset f' of
                          (ev', final, f'', out) \<Rightarrow> (ev @ Saved new_offset # ev', final, f'', out))))))"

text \<open>
  \<open>main\<close> from the call of \<open>get_cursor\<close> on: the offset is loaded, then the loop
  runs. \<open>get_cursor\<close> is called before the \<open>try\<close>, so its exception leaves \<open>main\<close>
  before the loop.
\<close>

definition main ::
  "nat \<Rightarrow> cursor_file \<Rightarrow> (int \<Rightarrow> 'r list option) \<Rightarrow> ('r \<Rightarrow> bool) \<Rightarrow> (int \<Rightarrow> save_result)
     \<Rightarrow> error + 'r event list \<times> int \<times> cursor_file \<times> outcome" where
  "main k f api process disk =
     (case get_cursor f of
        Inl e \<Rightarrow> Inl e
      | Inr current_offset \<Rightarrow> Inr (main_loop k api process disk current_offset f))"

text \<open>The offsets written by \<open>save_cursor\<close>, in order.\<close>

fun saved_offsets :: "'r event list \<Rightarrow> int list" where
  "saved_offsets [] = []"
| "saved_offsets (Checked x # ev) = saved_offsets ev"
| "saved_offsets (Saved n # ev) = n # saved_offsets ev"

text \<open>The records of the batch that starts at an offset; none when the fetch is interrupted.\<close>

definition batch_at :: "(int \<Rightarrow> 'r list option) \<Rightarrow> int \<Rightarrow> 'r list" where
  "batch_at api off = (case api off of None \<Rightarrow> [] | Some records \<Rightarrow> records)"

text \<open>
  The checkpoint discipline as a check on the events of a run and the way the run
  ended, read from left to right with the current offset and the items of the
  current batch that are still to be handled. An item event must be the next
  pending item, and its handling must have ended normally. A save is allowed only
  when no item of a non-empty batch is pending and the file system writes it; its
  value is the offset advanced by the length of that batch, and the next batch
  starts from it. The events may stop only where the loop can be left: with
  \<open>Complete\<close> on an empty batch; with \<open>Interrupted\<close> at an item whose handling is
  left by an exception, at a batch whose save is not written, or at a fetch that is
  interrupted; with \<open>Running\<close> only before the first item of a batch. So a batch
  whose items have all been handled and whose save the file system accepts must be
  followed by its save.
\<close>

fun checkpoint_discipline ::
  "(int \<Rightarrow> 'r list option) \<Rightarrow> ('r \<Rightarrow> bool) \<Rightarrow> (int \<Rightarrow> save_result) \<Rightarrow> int \<Rightarrow> 'r list
     \<Rightarrow> 'r event list \<Rightarrow> outcome \<Rightarrow> bool" where
  "checkpoint_discipline api process disk off pending [] out =
     (case out of
        Complete \<Rightarrow> pending = [] \<and> api off = Some []
      | Running \<Rightarrow> pending = batch_at api off
      | Interrupted \<Rightarrow>
          (case pending of
             y # ys \<Rightarrow> \<not> process y
           | [] \<Rightarrow>
               (case api off of
                  None \<Rightarrow> True
                | Some records \<Rightarrow>
                    records \<noteq> [] \<and> disk (off + int (length records)) \<noteq> Written)))"
| "checkpoint_discipline api process disk off pending (Checked x # ev) out =
     (case pending of
        [] \<Rightarrow> False
      | y # ys \<Rightarrow> x = y \<and> process y \<and> checkpoint_discipline api process disk off ys ev out)"
| "checkpoint_discipline api process disk off pending (Saved n # ev) out =
     (pending = []
      \<and> (case api off of
            None \<Rightarrow> False
          | Some records \<Rightarrow> records \<noteq> [] \<and> n = off + int (length records))
      \<and> disk n = Written
      \<and> checkpoint_discipline api process disk n (batch_at api n) ev out)"


section \<open>Static partitioning of the work\<close>

text \<open>
  \<open>range(0, stop, step)\<close> for a step that is not negative: the multiples of
  \<open>step\<close> below \<open>stop\<close>; a step of zero raises \<open>ValueError\<close>.
\<close>

definition py_range :: "nat \<Rightarrow> nat \<Rightarrow> error + nat list" where
  "py_range stop step =
     (if step = 0 then Inl ValueError
      else Inr (map (\<lambda>k. k * step) [0 ..< (stop + step - 1) div step]))"

text \<open>The slice \<open>xs[i:j]\<close> for indices that are not negative.\<close>

definition slice :: "'a list \<Rightarrow> nat \<Rightarrow> nat \<Rightarrow> 'a list" where
  "slice xs i j = take (j - i) (drop i xs)"

text \<open>
  The list comprehension shared by the three scripts,
  \<open>[records[i:i + chunk_size] for i in range(0, len(records), chunk_size)]\<close>.
\<close>

definition split_chunks :: "'a list \<Rightarrow> nat \<Rightarrow> error + 'a list list" where
  "split_chunks records chunk_size =
     (case py_range (length records) chunk_size of
        Inl e \<Rightarrow> Inl e
      | Inr starts \<Rightarrow> Inr (map (\<lambda>i. slice records i (i + chunk_size)) starts))"

text \<open>
  \<open>scrape_protocol_info_multithreaded\<close> (ukri_protocol_finder.py): the chunk size
  is the quotient rounded up; the division raises for no threads; with no records
  the function returns before any chunk is made.
\<close>

definition multithreaded_chunks :: "nat \<Rightarrow> 'a list \<Rightarrow> error + 'a list list" where
  "multithreaded_chunks num_threads simplified_records =
     (let total_records = length simplified_records in
      if num_threads = 0 then Inl ZeroDivisionError
      else
        (let chunk_size = (total_records + num_threads - 1) div num_threads in
         if total_records = 0 then Inr []
         else split_chunks simplified_records chunk_size))"

text \<open>
  \<open>run_gtr_search_to_excel\<close> (gtr_scraper.py): the chunk size is the quotient
  rounded down, and at least 1.
\<close>

definition gtr_chunks :: "nat \<Rightarrow> 'a list \<Rightarrow> error + 'a list list" where
  "gtr_chunks threads simplified =
     (if threads = 0 then Inl ZeroDivisionError
      else
        (let chunk_size = max 1 (length simplified div threads) in
         split_chunks simplified chunk_size))"

text \<open>
  \<open>run_search_to_excel\<close> (multithread_monolith.py): at most four threads, at least
  one, the chunk size rounded up.
\<close>

definition monolith_chunks :: "'a list \<Rightarrow> error + 'a list list" where
  "monolith_chunks candidates =
     (let n_threads = min 4 (max 1 (length candidates));
          chunk_size = (length candidates + n_threads - 1) div n_threads in
      split_chunks candidates chunk_size)"


section \<open>Dates\<close>

text \<open>
  A \<open>datetime\<close> object. \<open>dt_utcoffset\<close> is \<open>None\<close> for a naive value; the two
  \<open>strptime\<close> formats used by the scripts give naive values at midnight.
\<close>

record datetime =
  dt_year :: nat
  dt_month :: nat
  dt_day :: nat
  dt_hour :: nat
  dt_minute :: nat
  dt_second :: nat
  dt_microsecond :: nat
  dt_utcoffset :: "int option"

text \<open>\<open>datetime(y, m, d)\<close>.\<close>

definition mk_date :: "nat \<Rightarrow> nat \<Rightarrow> nat \<Rightarrow> datetime" where
  "mk_date y m d =
     \<lparr>dt_year = y, dt_month = m, dt_day = d, dt_hour = 0, dt_minute = 0, dt_second = 0,
      dt_microsecond = 0, dt_utcoffset = None\<rparr>"

text \<open>
  Naive values are compared field by field, from the year down; this is the order of
  the tuples below.
\<close>

definition naive_key :: "datetime \<Rightarrow> nat \<times> nat \<times> nat \<times> nat \<times> nat \<times> nat \<times> nat" where
  "naive_key d =
     (dt_year d, dt_month d, dt_day d, dt_hour d, dt_minute d, dt_second d, dt_microsecond d)"

section \<open>Protocol links of an award page (ukri_protocol_finder.py)\<close>

text \<open>
  One entry of \<open>items\<close> in \<open>get_protocol_links_for_award\<close>: the link text, the
  link target, and the result of \<open>parse_month_year\<close> on the date column of the row
  (\<open>None\<close> when the text is missing or is not a month and a year).
\<close>

record protocol_item =
  title :: string
  url :: string
  date :: "datetime option"

text \<open>The sort key \<open>d["date"] or datetime(1900, 1, 1)\<close>.\<close>

definition item_key :: "protocol_item \<Rightarrow> nat \<times> nat \<times> nat \<times> nat \<times> nat \<times> nat \<times> nat" where
  "item_key d = naive_key (case date d of None \<Rightarrow> mk_date 1900 1 1 | Some dt \<Rightarrow> dt)"

text \<open>
  \<open>items.sort(key=..., reverse=True)\<close>. Python's sort is stable, and with
  \<open>reverse=True\<close> it still keeps equal elements in their original order: the list
  is reversed, sorted upwards by a stable sort, and reversed again.
\<close>

definition sort_newest_first :: "protocol_item list \<Rightarrow> protocol_item list" where
  "sort_newest_first items = rev (sort_key item_key (rev items))"

subsection \<open>\<open>datetime.strptime(text, "%Y-%m-%d")\<close>\<close>

text \<open>
  The standard library turns the format into the regular expression
  \<open>(\d\d\d\d)-(1[0-2]|0[1-9]|[1-9])-(3[01]|[12]\d|0[1-9]|[1-9]| [1-9])\<close>, matches it
  at the start of the text, raises \<open>ValueError\<close> when it does not match or when
  text is left over, and then builds the date, which raises \<open>ValueError\<close> for a
  year 0 or a day that the month does not have. The three functions below match one
  group each and return its value and the rest of the text. In the month and day
  groups the first alternative that matches is the one the expression takes: when a
  two-character alternative matches, the one-character alternative cannot lead to a
  match of what follows.
\<close>

definition match_year :: "string \<Rightarrow> (nat \<times> string) option" where
  "match_year s =
     (case s of
        a # b # c # d # rest \<Rightarrow>
          if isdigit a \<and> isdigit b \<and> isdigit c \<and> isdigit d
          then Some (1000 * digit_val a + 100 * digit_val b + 10 * digit_val c + digit_val d, rest)
          else None
      | _ \<Rightarrow> None)"

definition match_month :: "string \<Rightarrow> (nat \<times> string) option" where
  "match_month s =
     (case s of
        [] \<Rightarrow> None
      | [a] \<Rightarrow> if isdigit a \<and> a \<noteq> CHR ''0'' then Some (digit_val a, []) else None
      | a # b # rest \<Rightarrow>
          if a = CHR ''1'' \<and> (b = CHR ''0'' \<or> b = CHR ''1'' \<or> b = CHR ''2'')
            then Some (10 + digit_val b, rest)
          else if a = CHR ''0'' \<and> isdigit b \<and> b \<noteq> CHR ''0'' then Some (digit_val b, rest)
          else if isdigit a \<and> a \<noteq> CHR ''0'' then Some (digit_val a, b # rest)
          else None)"

definition match_day :: "string \<Rightarrow> (nat \<times> string) option" where
  "match_day s =
     (case s of
        [] \<Rightarrow> None
      | [a] \<Rightarrow> if isdigit a \<and> a \<noteq> CHR ''0'' then Some (digit_val a, []) else None
      | a # b # rest \<Rightarrow>
          if a = CHR ''3'' \<and> (b = CHR ''0'' \<or> b = CHR ''1'') then Some (30 + digit_val b, rest)
          else if (a = CHR ''1'' \<or> a = CHR ''2'') \<and> isdigit b
            then Some (10 * digit_val a + digit_val b, rest)
          else if a = CHR ''0'' \<and> isdigit b \<and> b \<noteq> CHR ''0'' then Some (digit_val b, rest)
          else if isdigit a \<and> a \<noteq> CHR ''0'' then Some (digit_val a, b # rest)
          else if a = CHR '' '' \<and> isdigit b \<and> b \<noteq> CHR ''0'' then Some (digit_val b, rest)
          else None)"

definition is_leap :: "nat \<Rightarrow> bool" where
  "is_leap y = (y mod 4 = 0 \<and> (y mod 100 \<noteq> 0 \<or> y mod 400 = 0))"

definition days_in_month :: "nat \<Rightarrow> nat \<Rightarrow> nat" where
  "days_in_month y m =
     (if m = 2 then (if is_leap y then 29 else 28)
      else if m = 4 \<or> m = 6 \<or> m = 9 \<or> m = 11 then 30
      else 31)"

definition strptime_ymd :: "string \<Rightarrow> error + datetime" where
  "strptime_ymd s =
     (case match_year s of
        None \<Rightarrow> Inl ValueError
      | Some (y, r1) \<Rightarrow>
          (case r1 of
             [] \<Rightarrow> Inl ValueError
           | c1 # r2 \<Rightarrow>
               if c1 \<noteq> CHR ''-'' then Inl ValueError
               else
                 (case match_month r2 of
                    None \<Rightarrow> Inl ValueError
                  | Some (m, r3) \<Rightarrow>
                      (case r3 of
                         [] \<Rightarrow> Inl ValueError
                       | c2 # r4 \<Rightarrow>
                           if c2 \<noteq> CHR ''-'' then Inl ValueError
                           else
                             (case match_day r4 of
                                None \<Rightarrow> Inl ValueError
                              | Some (d, r5) \<Rightarrow>
                                  if r5 \<noteq> [] then Inl ValueError
                                  else if y < 1 \<or> days_in_month y m < d then Inl ValueError
                                  else Inr (mk_date y m d))))))"

section \<open>Best date of a record (ukri_protocol_finder.py, multithread_monolith.py)\<close>

text \<open>
  The field bag of an API record, read with \<open>fields.get(key)\<close>: \<open>None\<close> for a
  key that is absent or null, the text otherwise. (A value that is not text makes
  both parsing attempts raise, which the function catches: it counts like text that
  does not parse.)
\<close>

type_synonym field_bag = "string \<Rightarrow> string option"

text \<open>\<open>c.replace("Z", "+00:00")\<close>.\<close>

definition replace_Z :: "string \<Rightarrow> string" where
  "replace_Z c = concat (map (\<lambda>ch. if ch = CHR ''Z'' then ''+00:00'' else [ch]) c)"

text \<open>
  The loop over the candidates. \<open>fromisoformat\<close> is the standard library's
  \<open>datetime.fromisoformat\<close>, taken as a parameter: what it accepts depends on the
  Python version, and the function below only needs to know whether it returns or
  raises. The nested \<open>try\<close> of multithread_monolith.py and the two consecutive
  \<open>try\<close> blocks of ukri_protocol_finder.py are the same computation.
\<close>

fun first_parsed :: "(string \<Rightarrow> error + datetime) \<Rightarrow> string option list \<Rightarrow> datetime option" where
  "first_parsed fromisoformat [] = None"
| "first_parsed fromisoformat (c # candidates) =
     (case c of
        None \<Rightarrow> first_parsed fromisoformat candidates
      | Some s \<Rightarrow>
          if s = [] then first_parsed fromisoformat candidates
          else
            (case strptime_ymd (take 10 s) of
               Inr d \<Rightarrow> Some d
             | Inl e \<Rightarrow>
                 (case fromisoformat (replace_Z s) of
                    Inr d \<Rightarrow> Some d
                  | Inl e' \<Rightarrow> first_parsed fromisoformat candidates)))"

definition choose_best_date :: "(string \<Rightarrow> error + datetime) \<Rightarrow> field_bag \<Rightarrow> datetime option" where
  "choose_best_date fromisoformat bag =
     first_parsed fromisoformat
       [bag ''start_date'', bag ''award_date'', bag ''end_date'',
        bag ''record_timestamp'']"

text \<open>
  The selection as the specification words it. A candidate is usable when it is
  present, not empty, and parses as a calendar date (its first ten characters) or
  else as a full timestamp; the best date is that of the first usable candidate in
  the preference order, and there is none when no candidate is usable.
\<close>

definition parse_candidate :: "(string \<Rightarrow> error + datetime) \<Rightarrow> string \<Rightarrow> datetime option" where
  "parse_candidate fromisoformat s =
     (case strptime_ymd (take 10 s) of
        Inr d \<Rightarrow> Some d
      | Inl e \<Rightarrow> (case fromisoformat (replace_Z s) of Inr d \<Rightarrow> Some d | Inl e' \<Rightarrow> None))"

definition usable :: "(string \<Rightarrow> error + datetime) \<Rightarrow> field_bag \<Rightarrow> string \<Rightarrow> datetime option" where
  "usable fromisoformat bag key =
     (case bag key of
        None \<Rightarrow> None
      | Some s \<Rightarrow> if s = [] then None else parse_candidate fromisoformat s)"

definition best_date_spec :: "(string \<Rightarrow> error + datetime) \<Rightarrow> field_bag \<Rightarrow> datetime option" where
  "best_date_spec fromisoformat bag =
     (case List.map_filter (usable fromisoformat bag)
             [''start_date'', ''award_date'', ''end_date'', ''record_timestamp''] of
        [] \<Rightarrow> None
      | d # ds \<Rightarrow> Some d)"

section \<open>Workers that scrape a batch of records\<close>

text \<open>\<open>sep.join(xs)\<close>.\<close>

definition join :: "string \<Rightarrow> string list \<Rightarrow> string" where
  "join sep xs = (case xs of [] \<Rightarrow> [] | y # ys \<Rightarrow> y @ concat (map (\<lambda>z. sep @ z) ys))"

subsection \<open>\<open>scrape_gtr_batch\<close> (gtr_scraper.py)\<close>

text \<open>
  The row appended to \<open>results\<close> for one project: the input row and the five
  fields set from the page.
\<close>

record 'row gtr_result =
  gtr_row :: 'row
  gtr_chief_investigators :: string
  gtr_no_of_pis :: nat
  gtr_co_investigators :: string
  gtr_no_of_cois :: nat
  gtr_funded_value :: string

definition gtr_result_of :: "'row \<Rightarrow> string list \<Rightarrow> string list \<Rightarrow> string \<Rightarrow> 'row gtr_result" where
  "gtr_result_of row pis cois funded_value =
     \<lparr>gtr_row = row,
      gtr_chief_investigators = join ''; '' pis,
      gtr_no_of_pis = length pis,
      gtr_co_investigators = join ''; '' cois,
      gtr_no_of_cois = length cois,
      gtr_funded_value = funded_value\<rparr>"

text \<open>
  The \<open>for\<close> loop of \<open>scrape_gtr_batch\<close>. \<open>scrape_project_page\<close> is a parameter:
  for a row it returns the two name lists and the funded value, or raises. The
  local variable \<open>funded_value\<close> is assigned only by a call that returns, so it is
  carried through the loop as an option, \<open>None\<close> while it is unbound. The handler
  of the \<open>try\<close> assigns \<open>pis\<close> and \<open>cois\<close> only; the \<open>results.append\<close> after it reads
  \<open>funded_value\<close>, which raises \<open>UnboundLocalError\<close> when no earlier call has
  returned, and is the value of the last call that returned otherwise. Nothing
  in the function catches that exception.
\<close>

fun scrape_gtr_loop ::
  "('row \<Rightarrow> error + string list \<times> string list \<times> string) \<Rightarrow> string option
     \<Rightarrow> 'row gtr_result list \<Rightarrow> 'row list \<Rightarrow> error + 'row gtr_result list" where
  "scrape_gtr_loop scrape_project_page funded_value results [] = Inr results"
| "scrape_gtr_loop scrape_project_page funded_value results (row # batch) =
     (case scrape_project_page row of
        Inr (pis, cois, v) \<Rightarrow>
          scrape_gtr_loop scrape_project_page (Some v) (results @ [gtr_result_of row pis cois v]) batch
      | Inl e \<Rightarrow>
          (case funded_value of
             None \<Rightarrow> Inl UnboundLocalError
           | Some v \<Rightarrow>
               scrape_gtr_loop scrape_project_page (Some v) (results @ [gtr_result_of row [] [] v]) batch))"

definition scrape_gtr_batch ::
  "('row \<Rightarrow> error + string list \<times> string list \<times> string) \<Rightarrow> 'row list \<Rightarrow> error + 'row gtr_result list" where
  "scrape_gtr_batch scrape_project_page batch = scrape_gtr_loop scrape_project_page None [] batch"

text \<open>
  How \<open>run_gtr_search_to_excel\<close> collects the workers: the rows of a worker that
  returned are added to \<open>results\<close>; for a worker that raised, a message is printed
  and nothing is added. The list holds the outcomes of the workers in the order in
  which they complete.
\<close>

definition gtr_collect :: "(error + 'a list) list \<Rightarrow> 'a list" where
  "gtr_collect outcomes = concat (map (\<lambda>r. case r of Inl e \<Rightarrow> [] | Inr rows \<Rightarrow> rows) outcomes)"

subsection \<open>\<open>scrape_batch\<close> (multithread_monolith.py)\<close>

text \<open>
  The row appended to \<open>results\<close> for one award: the input row and the eight fields
  set from the page.
\<close>

record 'row award_result =
  award_row :: 'row
  protocol_count :: nat
  most_recent_protocol_url :: string
  most_recent_protocol_title :: string
  most_recent_protocol_date :: string
  chief_investigators :: string
  no_of_pis :: nat
  co_investigators :: string
  no_of_cois :: nat

text \<open>
  The dictionary built in \<open>results.append\<close>, from the row and the three lists.
  \<open>strftime\<close> stands for \<open>date.strftime("%Y-%m")\<close>.
\<close>

definition award_result_of ::
  "(datetime \<Rightarrow> string) \<Rightarrow> 'row \<Rightarrow> protocol_item list \<Rightarrow> string list \<Rightarrow> string list \<Rightarrow> 'row award_result" where
  "award_result_of strftime row protocols pis cois =
     \<lparr>award_row = row,
      protocol_count = length protocols,
      most_recent_protocol_url = (case protocols of [] \<Rightarrow> [] | p # ps \<Rightarrow> url p),
      most_recent_protocol_title = (case protocols of [] \<Rightarrow> [] | p # ps \<Rightarrow> title p),
      most_recent_protocol_date =
        (case protocols of
           [] \<Rightarrow> []
         | p # ps \<Rightarrow> (case date p of None \<Rightarrow> [] | Some d \<Rightarrow> strftime d)),
      chief_investigators = join ''; '' pis,
      no_of_pis = length pis,
      co_investigators = join ''; '' cois,
      no_of_cois = length cois\<rparr>"

text \<open>
  The \<open>for\<close> loop of \<open>scrape_batch\<close>. \<open>scrape_award_page\<close> is a parameter: for a row
  it returns the protocols and the two name lists, or raises. The handler of the
  \<open>try\<close> assigns all three variables that the \<open>results.append\<close> reads.
\<close>

fun scrape_batch ::
  "(datetime \<Rightarrow> string) \<Rightarrow> ('row \<Rightarrow> error + protocol_item list \<times> string list \<times> string list)
     \<Rightarrow> 'row list \<Rightarrow> 'row award_result list" where
  "scrape_batch strftime scrape_award_page [] = []"
| "scrape_batch strftime scrape_award_page (row # batch) =
     (case scrape_award_page row of
        Inr (protocols, pis, cois) \<Rightarrow>
          award_result_of strftime row protocols pis cois # scrape_batch strftime scrape_award_page batch
      | Inl e \<Rightarrow>
          award_result_of strftime row [] [] [] # scrape_batch strftime scrape_award_page batch)"

subsection \<open>Collecting the workers in multithread_monolith.py\<close>

text \<open>
  \<open>as_completed(futures)\<close> yields every future once, in the order in which the
  workers end. That order is not fixed by the program; it is given here as the list
  \<open>order\<close> of the positions of the futures, a permutation of their indices.
\<close>

definition as_completed :: "nat list \<Rightarrow> 'a list \<Rightarrow> 'a list" where
  "as_completed order futures = map (\<lambda>i. futures ! i) (filter (\<lambda>i. i < length futures) order)"

text \<open>
  The multithreaded section of \<open>run_search_to_excel\<close>: the candidates, already
  sorted newest first, are cut into chunks, one \<open>scrape_batch\<close> is submitted per
  chunk, and \<open>enriched\<close> is extended with the result of each future as it
  completes. With no candidates the chunk size is 0 and \<open>range\<close> raises.
\<close>

definition monolith_enriched ::
  "(datetime \<Rightarrow> string) \<Rightarrow> ('row \<Rightarrow> error + protocol_item list \<times> string list \<times> string list)
     \<Rightarrow> nat list \<Rightarrow> 'row list \<Rightarrow> error + 'row award_result list" where
  "monolith_enriched strftime scrape_award_page order candidates =
     (case monolith_chunks candidates of
        Inl e \<Rightarrow> Inl e
      | Inr chunks \<Rightarrow>
          Inr (concat (as_completed order (map (scrape_batch strftime scrape_award_page) chunks))))"

section \<open>Protocol information of the records (ukri_protocol_finder.py)\<close>

text \<open>
  The records are Python dictionaries with string keys. Their values are \<open>None\<close>,
  integers, strings and dates; a dictionary is the list of its items in insertion
  order, with at most one item per key.
\<close>

datatype pyval = PNone | PInt int | PStr string | PDate datetime

type_synonym pydict = "(string \<times> pyval) list"

text \<open>The truth value of a Python value, as tested by \<open>not v\<close> and \<open>if v\<close>.\<close>

definition truthy :: "pyval \<Rightarrow> bool" where
  "truthy v = (case v of PNone \<Rightarrow> False | PInt i \<Rightarrow> i \<noteq> 0 | PStr s \<Rightarrow> s \<noteq> [] | PDate d \<Rightarrow> True)"

text \<open>\<open>d[k]\<close>, which raises \<open>KeyError\<close> for a missing key.\<close>

definition getitem :: "('k \<times> 'v) list \<Rightarrow> 'k \<Rightarrow> error + 'v" where
  "getitem d k = (case map_of d k of None \<Rightarrow> Inl KeyError | Some v \<Rightarrow> Inr v)"

text \<open>\<open>d.get(k, default)\<close>.\<close>

definition dict_get :: "('k \<times> 'v) list \<Rightarrow> 'k \<Rightarrow> 'v \<Rightarrow> 'v" where
  "dict_get d k dflt = (case map_of d k of None \<Rightarrow> dflt | Some v \<Rightarrow> v)"

text \<open>
  \<open>d[k] = v\<close>, also the effect of one \<open>k: v\<close> of a dictionary display on the items
  before it: the value of an existing key is replaced in place, a new key is added
  at the end.
\<close>

fun setitem :: "'k \<Rightarrow> 'v \<Rightarrow> ('k \<times> 'v) list \<Rightarrow> ('k \<times> 'v) list" where
  "setitem k v [] = [(k, v)]"
| "setitem k v ((k', v') # d) = (if k' = k then (k, v) # d else (k', v') # setitem k v d)"

subsection \<open>The loop over the records of a worker\<close>

text \<open>
  The dictionary appended for a record with at least one protocol link; \<open>newest\<close>
  is the first link. \<open>strftime\<close> stands for \<open>date.strftime("%Y-%m")\<close>.
\<close>

definition protocol_row ::
  "(datetime \<Rightarrow> string) \<Rightarrow> pyval \<Rightarrow> pyval \<Rightarrow> pyval \<Rightarrow> pyval \<Rightarrow> nat \<Rightarrow> protocol_item \<Rightarrow> pydict" where
  "protocol_row strftime aid ptitle stream purl n newest =
     [(''Award ID'', aid),
      (''Project Title'', ptitle),
      (''Funding Stream'', stream),
      (''Project URL'', purl),
      (''Protocol Count'', PInt (int n)),
      (''Most Recent Protocol URL'', PStr (url newest)),
      (''Most Recent Protocol Title'', PStr (title newest)),
      (''Most Recent Protocol Date'', PStr (case date newest of None \<Rightarrow> [] | Some d \<Rightarrow> strftime d))]"

text \<open>
  The \<open>for row in subset\<close> loop, which \<open>worker\<close> in
  \<open>scrape_protocol_info_multithreaded\<close> and the sequential
  \<open>scrape_protocol_info\<close> have in common (over \<open>subset\<close> in the first, over
  \<open>simplified_records\<close> in the second) but for the list that the test
  \<open>len(protocol_rows) >= max_rows\<close> looks at. \<open>capped i rows\<close> is the outcome of
  that test before the item at position \<open>i\<close> when \<open>rows\<close> have been appended so
  far. \<open>get_protocol_links_for_award\<close> is a parameter: for a URL it returns the
  links, newest first, or raises; the call is the only statement inside the
  \<open>try\<close>, whose handler continues with the next record. The state of the loop is
  the rows appended and the URLs for which a page was requested. A \<open>KeyError\<close> of
  a subscript outside the \<open>try\<close> leaves the loop.
\<close>

fun scrape_rows ::
  "(pyval \<Rightarrow> error + protocol_item list) \<Rightarrow> (datetime \<Rightarrow> string) \<Rightarrow> (nat \<Rightarrow> pydict list \<Rightarrow> bool)
     \<Rightarrow> nat \<Rightarrow> pydict list \<Rightarrow> pyval list \<Rightarrow> pydict list \<Rightarrow> error + pydict list \<times> pyval list" where
  "scrape_rows links strftime capped i rows fetched [] = Inr (rows, fetched)"
| "scrape_rows links strftime capped i rows fetched (row # chunk) =
     (if capped i rows then Inr (rows, fetched)
      else
        (case getitem row ''Award ID'' of
           Inl e \<Rightarrow> Inl e
         | Inr aid \<Rightarrow>
             if \<not> truthy aid then scrape_rows links strftime capped (Suc i) rows fetched chunk
             else
               (case getitem row ''Project URL'' of
                  Inl e \<Rightarrow> Inl e
                | Inr purl \<Rightarrow>
                    if \<not> truthy purl then scrape_rows links strftime capped (Suc i) rows fetched chunk
                    else
                      (case links purl of
                         Inl e \<Rightarrow> scrape_rows links strftime capped (Suc i) rows (fetched @ [purl]) chunk
                       | Inr [] \<Rightarrow> scrape_rows links strftime capped (Suc i) rows (fetched @ [purl]) chunk
                       | Inr (newest # older) \<Rightarrow>
                           (case getitem row ''Project Title'' of
                              Inl e \<Rightarrow> Inl e
                            | Inr ptitle \<Rightarrow>
                                (case getitem row ''Funding Stream'' of
                                   Inl e \<Rightarrow> Inl e
                                 | Inr stream \<Rightarrow>
                                     scrape_rows links strftime capped (Suc i)
                                       (rows @ [protocol_row strftime aid ptitle stream purl
                                                  (Suc (length older)) newest])
                                       (fetched @ [purl]) chunk))))))"

text \<open>
  The sequential \<open>scrape_protocol_info\<close>: the test looks at the rows appended so
  far.
\<close>

definition scrape_protocol_info ::
  "(pyval \<Rightarrow> error + protocol_item list) \<Rightarrow> (datetime \<Rightarrow> string) \<Rightarrow> pydict list \<Rightarrow> int
     \<Rightarrow> error + pydict list \<times> pyval list" where
  "scrape_protocol_info links strftime simplified_records max_rows =
     scrape_rows links strftime (\<lambda>i rows. max_rows \<le> int (length rows)) 0 [] [] simplified_records"

text \<open>
  \<open>worker\<close> of \<open>scrape_protocol_info_multithreaded\<close>: the rows are appended to
  \<open>local_results\<close>, and the test looks at the shared list \<open>protocol_rows\<close>, which a
  worker extends only after its loop. \<open>seen i\<close> is the length of the shared list at
  the test before the item at position \<open>i\<close>; it depends on which other workers
  have ended by then.
\<close>

definition worker ::
  "(pyval \<Rightarrow> error + protocol_item list) \<Rightarrow> (datetime \<Rightarrow> string) \<Rightarrow> int \<Rightarrow> (nat \<Rightarrow> nat) \<Rightarrow> pydict list
     \<Rightarrow> error + pydict list \<times> pyval list" where
  "worker links strftime max_rows seen chunk =
     scrape_rows links strftime (\<lambda>i rows. max_rows \<le> int (seen i)) 0 [] [] chunk"

text \<open>
  What a worker adds to \<open>protocol_rows\<close>: its \<open>local_results\<close>, or nothing when
  an exception has left it.
\<close>

definition worker_rows :: "error + pydict list \<times> pyval list \<Rightarrow> pydict list" where
  "worker_rows r = (case r of Inl e \<Rightarrow> [] | Inr (rows, fetched) \<Rightarrow> rows)"

text \<open>
  \<open>scrape_protocol_info_multithreaded\<close>: one worker per chunk; \<open>protocol_rows\<close>
  holds the rows of the workers in the order in which they end (\<open>order\<close>, as for
  \<open>as_completed\<close>). \<open>seen w\<close> is what worker \<open>w\<close> sees of the shared list.
\<close>

definition scrape_protocol_info_multithreaded ::
  "(pyval \<Rightarrow> error + protocol_item list) \<Rightarrow> (datetime \<Rightarrow> string) \<Rightarrow> (nat \<Rightarrow> nat \<Rightarrow> nat) \<Rightarrow> nat list
     \<Rightarrow> pydict list \<Rightarrow> int \<Rightarrow> nat \<Rightarrow> error + pydict list" where
  "scrape_protocol_info_multithreaded links strftime seen order simplified_records max_rows num_threads =
     (case multithreaded_chunks num_threads simplified_records of
        Inl e \<Rightarrow> Inl e
      | Inr chunks \<Rightarrow>
          Inr (concat (as_completed order
                 (map (\<lambda>w. worker_rows (worker links strftime max_rows (seen w) (chunks ! w)))
                    [0 ..< length chunks]))))"

subsection \<open>Merging the protocol information into the records\<close>

text \<open>
  \<open>{r["Award ID"]: r for r in protocol_records}\<close>: a later row replaces an earlier
  one with the same Award ID.
\<close>

fun protocol_index :: "(pyval \<times> pydict) list \<Rightarrow> pydict list \<Rightarrow> error + (pyval \<times> pydict) list" where
  "protocol_index idx [] = Inr idx"
| "protocol_index idx (r # protocol_records) =
     (case getitem r ''Award ID'' of
        Inl e \<Rightarrow> Inl e
      | Inr aid \<Rightarrow> protocol_index (setitem aid r idx) protocol_records)"

text \<open>
  The dictionary appended to \<open>enriched_records\<close> for a record \<open>rec\<close> and the row
  \<open>p\<close> found for it in the index, the empty dictionary when there is none.
\<close>

definition enriched_record :: "pydict \<Rightarrow> pydict \<Rightarrow> pydict" where
  "enriched_record rec p =
     setitem ''No. of Co-Is'' (dict_get p ''No. of Co-Is'' (PInt 0))
    (setitem ''Co-Investigators'' (dict_get p ''Co-Investigators'' (PStr []))
    (setitem ''No. of PIs'' (dict_get p ''No. of PIs'' (PInt 0))
    (setitem ''Chief Investigators'' (dict_get p ''Chief Investigators'' (PStr []))
    (setitem ''Most Recent Protocol Date'' (dict_get p ''Most Recent Protocol Date'' (PStr []))
    (setitem ''Most Recent Protocol Title'' (dict_get p ''Most Recent Protocol Title'' (PStr []))
    (setitem ''Most Recent Protocol URL'' (dict_get p ''Most Recent Protocol URL'' (PStr []))
    (setitem ''Protocol Count'' (dict_get p ''Protocol Count'' (PInt 0)) rec)))))))"

definition enriched_records :: "pydict list \<Rightarrow> pydict list \<Rightarrow> error + pydict list" where
  "enriched_records all_records protocol_records =
     (case protocol_index [] protocol_records of
        Inl e \<Rightarrow> Inl e
      | Inr idx \<Rightarrow>
          Inr (map (\<lambda>rec. enriched_record rec (dict_get idx (dict_get rec ''Award ID'' PNone) []))
                 all_records))"

text \<open>
  \<open>run_search_to_excel\<close> from the filtered records to the merged records: the
  multithreaded scrape with its default of four threads, then the merge.
\<close>

definition run_search_to_excel ::
  "(pyval \<Rightarrow> error + protocol_item list) \<Rightarrow> (datetime \<Rightarrow> string) \<Rightarrow> (nat \<Rightarrow> nat \<Rightarrow> nat) \<Rightarrow> nat list
     \<Rightarrow> pydict list \<Rightarrow> int \<Rightarrow> error + pydict list" where
  "run_search_to_excel links strftime seen order all_records max_rows =
     (case scrape_protocol_info_multithreaded links strftime seen order all_records max_rows 4 of
        Inl e \<Rightarrow> Inl e
      | Inr protocol_records \<Rightarrow> enriched_records all_records protocol_records)"

text \<open>The eight keys that the merge sets, with the defaults of the merge.\<close>

definition enrichment_defaults :: pydict where
  "enrichment_defaults =
     [(''Protocol Count'', PInt 0),
      (''Most Recent Protocol URL'', PStr []),
      (''Most Recent Protocol Title'', PStr []),
      (''Most Recent Protocol Date'', PStr []),
      (''Chief Investigators'', PStr []),
      (''No. of PIs'', PInt 0),
      (''Co-Investigators'', PStr []),
      (''No. of Co-Is'', PInt 0)]"

text \<open>
  Whether the loop appends a row for a record when it reaches it: the Award ID and
  the URL are present and true, and the page gives at least one link.
\<close>

definition yields_entry :: "(pyval \<Rightarrow> error + protocol_item list) \<Rightarrow> pydict \<Rightarrow> bool" where
  "yields_entry links row =
     (truthy (dict_get row ''Award ID'' PNone) \<and> truthy (dict_get row ''Project URL'' PNone)
      \<and> (case links (dict_get row ''Project URL'' PNone) of Inl e \<Rightarrow> False | Inr protos \<Rightarrow> protos \<noteq> []))"

text \<open>A record as \<open>get_filtered_api_records\<close> builds it, and a protocol link, for the examples.\<close>

definition sample_record :: "string \<Rightarrow> string \<Rightarrow> pydict" where
  "sample_record aid purl =
     [(''Award ID'', PStr aid), (''Project Title'', PStr ''T''), (''Funding Stream'', PStr ''S''),
      (''Project URL'', PStr purl)]"

definition sample_link :: protocol_item where
  "sample_link = \<lparr>title = ''Protocol'', url = ''p.pdf'', date = None\<rparr>"

section \<open>Properties of the checkpoint store\<close>

declare nat_str.simps [simp del]

subsection \<open>\<open>int\<close> reads back what \<open>str\<close> writes\<close>

lemma digit_char_props:
  assumes "d < 10"
  shows "isdigit (digit_char d)" and "digit_val (digit_char d) = d" and "\<not> isspace (digit_char d)"
    and "digit_char d \<noteq> CHR ''-''" and "digit_char d \<noteq> CHR ''+''" and "digit_char d \<noteq> CHR ''_''"
proof -
  from assms have v: "(of_char (digit_char d) :: nat) = 48 + d"
    by (simp add: digit_char_def)
  from v assms show "isdigit (digit_char d)" by (simp add: isdigit_def)
  from v show "digit_val (digit_char d) = d" by (simp add: digit_val_def)
  from v assms show "\<not> isspace (digit_char d)" by (simp add: isspace_def)
  from v assms show "digit_char d \<noteq> CHR ''-''" by auto
  from v assms show "digit_char d \<noteq> CHR ''+''" by auto
  from v assms show "digit_char d \<noteq> CHR ''_''" by auto
qed

lemma int_digits_nat_str:
  "int_digits acc p (nat_str n @ t) = int_digits (acc * 10 ^ length (nat_str n) + n) True t"
proof (induction n arbitrary: acc p t rule: nat_str.induct)
  case (1 n)
  show ?case
  proof (cases "n < 10")
    case True
    then show ?thesis by (simp add: nat_str.simps [of n] digit_char_props mult.commute)
  next
    case False
    have m: "n mod 10 < 10" by simp
    have "int_digits acc p (nat_str n @ t)
          = int_digits acc p (nat_str (n div 10) @ (digit_char (n mod 10) # t))"
      using False by (simp add: nat_str.simps [of n])
    also have "\<dots> = int_digits (acc * 10 ^ length (nat_str (n div 10)) + n div 10) True
                       (digit_char (n mod 10) # t)"
      using False by (rule "1.IH")
    also have "\<dots> = int_digits (10 * (acc * 10 ^ length (nat_str (n div 10)) + n div 10) + n mod 10) True t"
      using m by (simp add: digit_char_props)
    also have "10 * (acc * 10 ^ length (nat_str (n div 10)) + n div 10) + n mod 10
               = acc * 10 ^ length (nat_str n) + n"
      using False by (simp add: nat_str.simps [of n] algebra_simps)
    finally show ?thesis .
  qed
qed

lemma nat_str_chars: "c \<in> set (nat_str n) \<Longrightarrow> \<exists>d < 10. c = digit_char d"
proof (induction n rule: nat_str.induct)
  case (1 n)
  show ?case
  proof (cases "n < 10")
    case True
    with "1.prems" show ?thesis by (auto simp: nat_str.simps [of n])
  next
    case False
    from False "1.prems" have "c \<in> set (nat_str (n div 10)) \<or> c = digit_char (n mod 10)"
      by (auto simp: nat_str.simps [of n])
    then show ?thesis
    proof
      assume "c \<in> set (nat_str (n div 10))"
      with False show ?thesis using "1.IH" by blast
    next
      assume "c = digit_char (n mod 10)"
      moreover have "n mod 10 < 10" by simp
      ultimately show ?thesis by blast
    qed
  qed
qed

lemma nat_str_nonempty: "nat_str n \<noteq> []"
  by (simp add: nat_str.simps [of n])

lemma strip_id: "(\<And>c. c \<in> set s \<Longrightarrow> \<not> isspace c) \<Longrightarrow> strip s = s"
proof -
  assume a: "\<And>c. c \<in> set s \<Longrightarrow> \<not> isspace c"
  have d: "dropWhile isspace xs = xs" if "\<And>c. c \<in> set xs \<Longrightarrow> \<not> isspace c" for xs
    using that by (cases xs) simp_all
  from a have "dropWhile isspace s = s" by (rule d)
  moreover from a have "dropWhile isspace (rev s) = rev s" by (intro d) simp
  ultimately show ?thesis by (simp add: strip_def)
qed

lemma py_str_no_space: "c \<in> set (py_str i) \<Longrightarrow> \<not> isspace c"
proof -
  assume "c \<in> set (py_str i)"
  then have "c = CHR ''-'' \<or> (\<exists>n. c \<in> set (nat_str n))"
    by (auto simp: py_str_def split: if_splits)
  then show ?thesis
  proof
    assume "c = CHR ''-''"
    then show ?thesis by (simp add: isspace_def)
  next
    assume "\<exists>n. c \<in> set (nat_str n)"
    then obtain d where "d < 10" "c = digit_char d" using nat_str_chars by blast
    then show ?thesis by (simp add: digit_char_props)
  qed
qed

lemma int_digits_nat_str0: "int_digits 0 False (nat_str n) = Some n"
  using int_digits_nat_str [of 0 False n "[]"] by simp

lemma py_int_py_str: "py_int (py_str i) = Inr i"
proof -
  have s: "strip (py_str i) = py_str i" by (rule strip_id) (rule py_str_no_space)
  show ?thesis
  proof (cases "i < 0")
    case True
    then have p: "py_str i = CHR ''-'' # nat_str (nat (- i))" by (simp add: py_str_def)
    have "py_int (py_str i) = (case py_str i of [] \<Rightarrow> Inl ValueError
      | c # cs \<Rightarrow>
          if c = CHR ''-'' then
            (case int_digits 0 False cs of None \<Rightarrow> Inl ValueError | Some n \<Rightarrow> Inr (- int n))
          else if c = CHR ''+'' then
            (case int_digits 0 False cs of None \<Rightarrow> Inl ValueError | Some n \<Rightarrow> Inr (int n))
          else
            (case int_digits 0 False (c # cs) of None \<Rightarrow> Inl ValueError | Some n \<Rightarrow> Inr (int n)))"
      unfolding py_int_def s ..
    with True show ?thesis by (simp add: p int_digits_nat_str0)
  next
    case False
    obtain c cs where n: "nat_str (nat i) = c # cs"
      using nat_str_nonempty [of "nat i"] by (cases "nat_str (nat i)") auto
    then have "c \<in> set (nat_str (nat i))" by simp
    then obtain d where "d < 10" "c = digit_char d" using nat_str_chars by blast
    then have c: "c \<noteq> CHR ''-''" "c \<noteq> CHR ''+''" by (simp_all add: digit_char_props)
    from int_digits_nat_str0 [of "nat i"] n have "int_digits 0 False (c # cs) = Some (nat i)" by simp
    moreover from False have p: "py_str i = c # cs" by (simp add: py_str_def n)
    moreover have "py_int (py_str i) = (case py_str i of [] \<Rightarrow> Inl ValueError
      | c # cs \<Rightarrow>
          if c = CHR ''-'' then
            (case int_digits 0 False cs of None \<Rightarrow> Inl ValueError | Some n \<Rightarrow> Inr (- int n))
          else if c = CHR ''+'' then
            (case int_digits 0 False cs of None \<Rightarrow> Inl ValueError | Some n \<Rightarrow> Inr (int n))
          else
            (case int_digits 0 False (c # cs) of None \<Rightarrow> Inl ValueError | Some n \<Rightarrow> Inr (int n)))"
      unfolding py_int_def s ..
    ultimately show ?thesis using False c by (simp del: int_digits.simps)
  qed
qed


subsection \<open>Loading the checkpoint\<close>

lemma py_int_error: "py_int s = Inl e \<Longrightarrow> e = ValueError"
  by (auto simp: py_int_def split: list.splits if_splits option.splits)

lemma set_strip: "set (strip s) \<subseteq> set s"
  by (auto simp: strip_def dest!: set_dropWhileD)

lemma py_int_unsigned_nonneg:
  assumes "py_int s = Inr n" and "CHR ''-'' \<notin> set s"
  shows "0 \<le> n"
proof -
  have "set (strip s) \<subseteq> set s" by (rule set_strip)
  with assms(2) have "CHR ''-'' \<notin> set (strip s)" by blast
  with assms(1) show ?thesis
    by (auto simp: py_int_def split: list.splits if_splits option.splits)
qed

lemma get_cursor_readable: "f \<noteq> Unreadable \<Longrightarrow> \<exists>n. get_cursor f = Inr n"
proof (cases f)
  case (Content t)
  show ?thesis
  proof (cases "py_int (strip t)")
    case (Inl e)
    then have "e = ValueError" by (rule py_int_error)
    with Inl Content show ?thesis by (simp add: get_cursor_def)
  next
    case (Inr n)
    with Content show ?thesis by (simp add: get_cursor_def)
  qed
qed (simp_all add: get_cursor_def)

lemma get_cursor_py_str: "get_cursor (Content (py_str n)) = Inr n"
proof -
  have "strip (py_str n) = py_str n" by (rule strip_id) (rule py_str_no_space)
  then show ?thesis by (simp add: get_cursor_def py_int_py_str)
qed

text \<open>
  Claim C9, as stated, asks that loading never raises and that the loaded offset is
  non-negative, for every state of the file. A cursor path that exists but cannot
  be opened or read makes \<open>get_cursor\<close> raise \<open>OSError\<close>, which it does not catch;
  and a file holding the text \<open>-5\<close> is an integer literal for \<open>int\<close>, so
  \<open>get_cursor\<close> returns \<open>-5\<close>.
\<close>

theorem get_cursor_counterexample:
  "get_cursor Unreadable = Inl OSError
   \<and> get_cursor (Content ''-5'') = Inr (- 5) \<and> \<not> (0::int) \<le> - 5"
  by (simp add: get_cursor_def py_int_def strip_def isspace_def isdigit_def digit_val_def)

text \<open>
  Claim C9, amended: \<open>get_cursor\<close> raises only for a cursor path that exists but
  cannot be opened or read, and then \<open>OSError\<close>; for every other state of the file
  it returns an integer: a missing file, a file that cannot be decoded and a file
  whose text is not an integer literal all give 0; a file whose text is an integer
  literal gives that integer, which is non-negative whenever the text holds no
  minus sign.
\<close>

theorem get_cursor_never_raises:
  "(f \<noteq> Unreadable \<longrightarrow> (\<exists>n. get_cursor f = Inr n))
   \<and> get_cursor Unreadable = Inl OSError
   \<and> get_cursor Missing = Inr 0
   \<and> get_cursor Undecodable = Inr 0
   \<and> (py_int (strip txt) = Inl e \<longrightarrow> get_cursor (Content txt) = Inr 0)
   \<and> (py_int (strip txt) = Inr n \<longrightarrow> get_cursor (Content txt) = Inr n)
   \<and> (get_cursor (Content txt) = Inr n \<and> CHR ''-'' \<notin> set txt \<longrightarrow> 0 \<le> n)"
proof (intro conjI impI)
  assume "f \<noteq> Unreadable"
  then show "\<exists>n. get_cursor f = Inr n" by (rule get_cursor_readable)
next
  show "get_cursor Unreadable = Inl OSError" by (simp add: get_cursor_def)
next
  show "get_cursor Missing = Inr 0" by (simp add: get_cursor_def)
next
  show "get_cursor Undecodable = Inr 0" by (simp add: get_cursor_def)
next
  assume a: "py_int (strip txt) = Inl e"
  then have "e = ValueError" by (rule py_int_error)
  with a show "get_cursor (Content txt) = Inr 0" by (simp add: get_cursor_def)
next
  assume "py_int (strip txt) = Inr n"
  then show "get_cursor (Content txt) = Inr n" by (simp add: get_cursor_def)
next
  assume a: "get_cursor (Content txt) = Inr n \<and> CHR ''-'' \<notin> set txt"
  show "0 \<le> n"
  proof (cases "py_int (strip txt)")
    case (Inl e)
    then have "e = ValueError" by (rule py_int_error)
    with Inl a show ?thesis by (simp add: get_cursor_def)
  next
    case (Inr m)
    with a have mn: "m = n" by (simp add: get_cursor_def)
    have "set (strip txt) \<subseteq> set txt" by (rule set_strip)
    with a have "CHR ''-'' \<notin> set (strip txt)" by blast
    with Inr have "0 \<le> m" by (rule py_int_unsigned_nonneg)
    with mn show ?thesis by simp
  qed
qed

text \<open>
  The file \<open>12a\<close> is readable and not an integer literal, and loads as 0; the file
  \<open> 40 \<close> holds no minus sign and loads as 40.
\<close>

theorem get_cursor_never_raises_witness:
  "Content ''12a'' \<noteq> Unreadable
   \<and> py_int (strip ''12a'') = Inl ValueError \<and> get_cursor (Content ''12a'') = Inr 0
   \<and> py_int (strip '' 40 '') = Inr 40 \<and> get_cursor (Content '' 40 '') = Inr 40
   \<and> CHR ''-'' \<notin> set '' 40 '' \<and> (0::int) \<le> 40"
proof -
  have a: "py_int (strip ''12a'') = Inl ValueError"
    by (simp add: py_int_def strip_def isspace_def isdigit_def digit_val_def)
  have b: "py_int (strip '' 40 '') = Inr 40"
    by (simp add: py_int_def strip_def isspace_def isdigit_def digit_val_def)
  from get_cursor_never_raises [of "Content ''12a''" "''12a''" ValueError 0] a
  have c: "get_cursor (Content ''12a'') = Inr 0" by blast
  from get_cursor_never_raises [of "Content ''12a''" "'' 40 ''" ValueError 40] b
  have d: "get_cursor (Content '' 40 '') = Inr 40" by blast
  from a b c d show ?thesis by simp
qed

subsection \<open>The checkpoint is saved once per finished batch\<close>

lemma for_items_finished:
  "for_items process xs = (ev, True) \<Longrightarrow> ev = map Checked xs \<and> (\<forall>x \<in> set xs. process x)"
  by (induction xs arbitrary: ev) (auto split: if_splits prod.splits)

lemma for_items_abandoned:
  "for_items process xs = (ev, False) \<Longrightarrow>
     \<exists>pre y post. xs = pre @ y # post \<and> ev = map Checked pre \<and> (\<forall>x \<in> set pre. process x) \<and> \<not> process y"
proof (induction xs arbitrary: ev)
  case Nil
  then show ?case by simp
next
  case (Cons x xs)
  show ?case
  proof (cases "process x")
    case False
    with Cons.prems have "ev = []" by simp
    with False have "x # xs = [] @ x # xs \<and> ev = map Checked [] \<and> (\<forall>z \<in> set []. process z) \<and> \<not> process x"
      by simp
    then show ?thesis by blast
  next
    case True
    with Cons.prems obtain ev' where e: "for_items process xs = (ev', False)" "ev = Checked x # ev'"
      by (auto split: prod.splits)
    from Cons.IH [OF e(1)] obtain pre y post where
      p: "xs = pre @ y # post" "ev' = map Checked pre" "\<forall>z \<in> set pre. process z" "\<not> process y"
      by blast
    with e(2) True have "x # xs = (x # pre) @ y # post \<and> ev = map Checked (x # pre)
        \<and> (\<forall>z \<in> set (x # pre). process z) \<and> \<not> process y"
      by simp
    then show ?thesis by blast
  qed
qed

lemma saved_offsets_append: "saved_offsets (ev @ ev') = saved_offsets ev @ saved_offsets ev'"
  by (induction ev rule: saved_offsets.induct) simp_all

lemma saved_offsets_Checked: "saved_offsets (map Checked xs) = []"
  by (induction xs) simp_all

lemma discipline_items:
  "\<forall>x \<in> set xs. process x \<Longrightarrow>
   checkpoint_discipline api process disk off (xs @ ys) (map Checked xs @ ev) out
     = checkpoint_discipline api process disk off ys ev out"
  by (induction xs) simp_all

lemma discipline_Checked:
  "checkpoint_discipline api process disk off pending ev out \<Longrightarrow> Checked x \<in> set ev \<Longrightarrow> process x"
  by (induction api process disk off pending ev out rule: checkpoint_discipline.induct)
     (auto split: list.splits)

lemma main_loop_facts:
  assumes "main_loop k api process disk off f = (ev, final, f', out)"
  shows "checkpoint_discipline api process disk off (batch_at api off) ev out
     \<and> sorted_wrt (<) (off # saved_offsets ev)
     \<and> (out = Running \<longrightarrow> length (saved_offsets ev) = k)
     \<and> (out = Complete \<longrightarrow> api final = Some [])
     \<and> ((\<forall>n j. disk n \<noteq> WriteFailed j) \<longrightarrow>
          f' = (if saved_offsets ev = [] then f else Content (py_str (last (saved_offsets ev)))))
     \<and> ((\<forall>n. disk n = Written) \<longrightarrow> final = last (off # saved_offsets ev))"
  using assms
proof (induction k arbitrary: off f ev final f' out)
  case 0
  then show ?case by simp
next
  case (Suc k)
  show ?case
  proof (cases "api off")
    case None
    with Suc.prems show ?thesis by (auto simp: batch_at_def)
  next
    case (Some records)
    show ?thesis
    proof (cases "records = []")
      case True
      with Some Suc.prems show ?thesis by (auto simp: batch_at_def)
    next
      case False
      obtain ev0 ok where fi: "for_items process records = (ev0, ok)"
        by (cases "for_items process records")
      have b: "batch_at api off = records" using Some by (simp add: batch_at_def)
      show ?thesis
      proof (cases ok)
        case False
        with fi have "for_items process records = (ev0, False)" by simp
        from for_items_abandoned [OF this] obtain pre y post where
          p: "records = pre @ y # post" "ev0 = map Checked pre" "\<forall>x \<in> set pre. process x" "\<not> process y"
          by blast
        have "checkpoint_discipline api process disk off (pre @ y # post) (map Checked pre @ []) Interrupted
              = checkpoint_discipline api process disk off (y # post) [] Interrupted"
          using p(3) by (rule discipline_items)
        with p have d: "checkpoint_discipline api process disk off records ev0 Interrupted" by simp
        have r: "main_loop (Suc k) api process disk off f = (ev0, off, f, Interrupted)"
          using fi False Some \<open>records \<noteq> []\<close> by simp
        with Suc.prems have e: "ev = ev0" "final = off" "f' = f" "out = Interrupted" by simp_all
        show ?thesis unfolding e b using d p(2) by (simp add: saved_offsets_Checked)
      next
        case True
        with fi have "for_items process records = (ev0, True)" by simp
        from for_items_finished [OF this] have
          ev0: "ev0 = map Checked records" and ok: "\<forall>x \<in> set records. process x" by simp_all
        let ?n = "off + int (length records)"
        from \<open>records \<noteq> []\<close> have lt: "off < ?n" by simp
        have pre: "checkpoint_discipline api process disk off (records @ []) (map Checked records @ t) o'
              = checkpoint_discipline api process disk off [] t o'" for t o'
          using ok by (rule discipline_items)
        show ?thesis
        proof (cases "disk ?n")
          case Written
          let ?f = "Content (py_str ?n)"
          obtain ev' final' f'' out' where
            m: "main_loop k api process disk ?n ?f = (ev', final', f'', out')"
            by (cases "main_loop k api process disk ?n ?f") auto
          note ih = Suc.IH [OF m]
          have r: "main_loop (Suc k) api process disk off f = (ev0 @ Saved ?n # ev', final', f'', out')"
            using fi True Some \<open>records \<noteq> []\<close> Written m by (simp add: Let_def save_cursor_def)
          with Suc.prems have e: "ev = ev0 @ Saved ?n # ev'" "final = final'" "f' = f''" "out = out'"
            by simp_all
          have so: "saved_offsets (ev0 @ Saved ?n # ev') = ?n # saved_offsets ev'"
            by (simp add: ev0 saved_offsets_append saved_offsets_Checked)
          have d: "checkpoint_discipline api process disk off records (ev0 @ Saved ?n # ev') out'"
            using pre [of "Saved ?n # ev'" out'] ev0 ih Written Some \<open>records \<noteq> []\<close> by simp
          have s: "sorted_wrt (<) (off # ?n # saved_offsets ev')"
            using ih lt by auto
          show ?thesis unfolding e b so using d s ih by simp
        next
          case OpenFailed
          have r: "main_loop (Suc k) api process disk off f = (ev0, ?n, f, Interrupted)"
            using fi True Some \<open>records \<noteq> []\<close> OpenFailed by (simp add: Let_def save_cursor_def)
          with Suc.prems have e: "ev = ev0" "final = ?n" "f' = f" "out = Interrupted" by simp_all
          have d: "checkpoint_discipline api process disk off records ev0 Interrupted"
            using pre [of "[]" Interrupted] ev0 OpenFailed Some \<open>records \<noteq> []\<close> by simp
          have so: "saved_offsets ev0 = []" by (simp add: ev0 saved_offsets_Checked)
          show ?thesis unfolding e b so using d OpenFailed by auto
        next
          case (WriteFailed j)
          have r: "main_loop (Suc k) api process disk off f
                   = (ev0, ?n, Content (take j (py_str ?n)), Interrupted)"
            using fi True Some \<open>records \<noteq> []\<close> WriteFailed by (simp add: Let_def save_cursor_def)
          with Suc.prems have e: "ev = ev0" "final = ?n" "f' = Content (take j (py_str ?n))"
            "out = Interrupted" by simp_all
          have d: "checkpoint_discipline api process disk off records ev0 Interrupted"
            using pre [of "[]" Interrupted] ev0 WriteFailed Some \<open>records \<noteq> []\<close> by simp
          have so: "saved_offsets ev0 = []" by (simp add: ev0 saved_offsets_Checked)
          show ?thesis unfolding e b so using d WriteFailed by auto
        qed
      qed
    qed
  qed
qed

text \<open>
  Claim C1, as stated, asks the persisted offset never to decrease during a run.
  \<open>save_cursor\<close> empties the file before it writes. On a cursor file holding 10,
  with two records at offset 10, a save that is left after the file has been
  emptied and before any character is written ends the run with an empty cursor
  file, which loads as 0.
\<close>

theorem main_persisted_counterexample:
  "get_cursor (Content ''10'') = Inr 10
   \<and> main 3 (Content ''10'') (\<lambda>n. if n = 10 then Some [1, 2 :: nat] else Some []) (\<lambda>x. True)
        (\<lambda>n. WriteFailed 0)
       = Inr ([Checked 1, Checked 2], 12, Content [], Interrupted)
   \<and> get_cursor (Content []) = Inr 0 \<and> (0::int) < 10"
proof -
  have g: "get_cursor (Content ''10'') = Inr 10"
    by (simp add: get_cursor_def py_int_def strip_def isspace_def isdigit_def digit_val_def)
  have e: "get_cursor (Content []) = Inr 0"
    by (simp add: get_cursor_def py_int_def strip_def)
  have m: "main 3 (Content ''10'') (\<lambda>n. if n = 10 then Some [1, 2 :: nat] else Some []) (\<lambda>x. True)
        (\<lambda>n. WriteFailed 0)
       = Inr ([Checked 1, Checked 2], 12, Content [], Interrupted)"
    by (simp add: main_def g numeral_nat Let_def save_cursor_def)
  from g e m show ?thesis by simp
qed

text \<open>
  Claim C1, amended: in a run of \<open>main\<close> that loads the offset \<open>off\<close>, for any
  behaviour of the API, of the items and of the file system and for any number of
  loop iterations: the events and the way the run ended obey the checkpoint
  discipline, that is, every save comes when all items of its non-empty batch have
  been handled and none is pending, once per such batch when the file system writes
  it, with the offset advanced by the length of that batch, and a batch left by an
  exception or an interrupt is not saved; every item recorded as handled was handled
  normally; the offsets saved are strictly increasing from the loaded offset on;
  a run that has not left the loop after \<open>k\<close> iterations has saved \<open>k\<close> times; a
  run that completes ends at an offset where the API has no records; a saved
  offset is read back by \<open>get_cursor\<close>; as long as no save is left after the file
  has been emptied, the file at the end loads as the last offset saved, or as the
  loaded offset when nothing was saved, so the persisted offset never decreases;
  and when every save is written, the offset held at the end is that same offset.
\<close>

theorem main_checkpoint_discipline:
  assumes "get_cursor f = Inr off"
  shows "\<exists>ev final f' out.
     main k f api process disk = Inr (ev, final, f', out)
     \<and> checkpoint_discipline api process disk off (batch_at api off) ev out
     \<and> (\<forall>x. Checked x \<in> set ev \<longrightarrow> process x)
     \<and> sorted_wrt (<) (off # saved_offsets ev)
     \<and> (out = Running \<longrightarrow> length (saved_offsets ev) = k)
     \<and> (out = Complete \<longrightarrow> api final = Some [])
     \<and> get_cursor (snd (save_cursor Written n g)) = Inr n
     \<and> ((\<forall>n j. disk n \<noteq> WriteFailed j) \<longrightarrow> get_cursor f' = Inr (last (off # saved_offsets ev)))
     \<and> ((\<forall>n. disk n = Written) \<longrightarrow> final = last (off # saved_offsets ev))"
proof -
  obtain ev final f' out where m: "main_loop k api process disk off f = (ev, final, f', out)"
    by (cases "main_loop k api process disk off f") auto
  note facts = main_loop_facts [OF m]
  from facts have d: "checkpoint_discipline api process disk off (batch_at api off) ev out" by blast
  have c: "\<forall>x. Checked x \<in> set ev \<longrightarrow> process x"
    using discipline_Checked [OF d] by blast
  have rt: "get_cursor (snd (save_cursor Written n g)) = Inr n"
    by (simp add: save_cursor_def get_cursor_py_str)
  have p: "(\<forall>n j. disk n \<noteq> WriteFailed j) \<longrightarrow> get_cursor f' = Inr (last (off # saved_offsets ev))"
  proof
    assume "\<forall>n j. disk n \<noteq> WriteFailed j"
    with facts have "f' = (if saved_offsets ev = [] then f else Content (py_str (last (saved_offsets ev))))"
      by blast
    with assms show "get_cursor f' = Inr (last (off # saved_offsets ev))"
      by (simp add: get_cursor_py_str)
  qed
  from assms m have "main k f api process disk = Inr (ev, final, f', out)" by (simp add: main_def)
  with facts d c rt p show ?thesis by blast
qed

text \<open>
  A run on a cursor file holding 10, where the API gives two records at offset 10
  and three at offset 12, and the handling of the second of these is left by an
  exception: the first batch is saved as 12, the second batch is left without a
  save, and the file loads as 12.
\<close>

theorem main_checkpoint_discipline_witness:
  "get_cursor (Content ''10'') = Inr 10
   \<and> main 5 (Content ''10'')
        (\<lambda>n. if n = 10 then Some [1, 2] else if n = 12 then Some [3, 4, 5 :: nat] else Some [])
        (\<lambda>x. x \<noteq> 4) (\<lambda>n. Written)
     = Inr ([Checked 1, Checked 2, Saved 12, Checked 3], 12, Content ''12'', Interrupted)
   \<and> get_cursor (Content ''12'') = Inr (last (10 # saved_offsets [Checked (1::nat), Checked 2, Saved 12, Checked 3]))"
proof -
  let ?api = "\<lambda>n::int. if n = 10 then Some [1, 2] else if n = 12 then Some [3, 4, 5 :: nat] else Some []"
  have g: "get_cursor (Content ''10'') = Inr 10"
    by (simp add: get_cursor_def py_int_def strip_def isspace_def isdigit_def digit_val_def)
  have s: "py_str 12 = ''12''" by code_simp
  have m: "main 5 (Content ''10'') ?api (\<lambda>x. x \<noteq> 4) (\<lambda>n. Written)
     = Inr ([Checked 1, Checked 2, Saved 12, Checked 3], 12, Content ''12'', Interrupted)"
    by (simp add: main_def g numeral_nat Let_def save_cursor_def s)
  have h: "\<forall>(n::int) j. (\<lambda>n. Written) n \<noteq> WriteFailed j" by simp
  from main_checkpoint_discipline [OF g, of 5 ?api "\<lambda>x. x \<noteq> 4" "\<lambda>n. Written"] m h
  have "get_cursor (Content ''12'')
        = Inr (last (10 # saved_offsets [Checked (1::nat), Checked 2, Saved 12, Checked 3]))"
    by auto
  with g m show ?thesis by blast
qed


section \<open>Properties of the static partitioning\<close>

lemma concat_slices:
  "concat (map (\<lambda>i. slice xs i (i + c)) (map (\<lambda>k. k * c) [0 ..< m])) = take (m * c) xs"
proof (induction m)
  case 0
  show ?case by simp
next
  case (Suc m)
  have "take (m * c) xs @ take c (drop (m * c) xs) = take (m * c + c) xs"
    by (simp add: take_add)
  with Suc show ?case by (simp add: slice_def add.commute)
qed

lemma ceil_div_covers:
  assumes "0 < (c::nat)"
  shows "n \<le> ((n + c - 1) div c) * c"
proof -
  have "n + c - 1 = (n + c - 1) div c * c + (n + c - 1) mod c" by simp
  moreover from assms have "(n + c - 1) mod c < c" by simp
  ultimately show ?thesis by linarith
qed

lemma ceil_div_tight:
  assumes "0 < (c::nat)" and "k < (n + c - 1) div c"
  shows "k * c < n"
proof -
  from assms(2) have "Suc k \<le> (n + c - 1) div c" by simp
  then have "Suc k * c \<le> (n + c - 1) div c * c" by (rule mult_le_mono1)
  also have "\<dots> \<le> n + c - 1" by simp
  finally have "k * c + c \<le> n + c - 1" by simp
  with assms(1) show ?thesis by linarith
qed

lemma split_chunks_partition:
  assumes "0 < c"
  shows "\<exists>chunks. split_chunks xs c = Inr chunks
           \<and> concat chunks = xs
           \<and> length chunks = (length xs + c - 1) div c
           \<and> (\<forall>ch \<in> set chunks. ch \<noteq> [] \<and> length ch \<le> c)
           \<and> (\<forall>i. Suc i < length chunks \<longrightarrow> length (chunks ! i) = c)"
proof -
  let ?m = "(length xs + c - 1) div c"
  let ?chunks = "map (\<lambda>i. slice xs i (i + c)) (map (\<lambda>k. k * c) [0 ..< ?m])"
  from assms have eq: "split_chunks xs c = Inr ?chunks"
    by (simp add: split_chunks_def py_range_def)
  have "concat ?chunks = take (?m * c) xs" by (rule concat_slices)
  with ceil_div_covers [OF assms, of "length xs"] have cc: "concat ?chunks = xs" by simp
  have len: "length ?chunks = ?m" by simp
  have ne: "\<forall>ch \<in> set ?chunks. ch \<noteq> [] \<and> length ch \<le> c"
  proof
    fix ch assume "ch \<in> set ?chunks"
    then obtain k where k: "k < ?m" "ch = slice xs (k * c) (k * c + c)" by auto
    from ceil_div_tight [OF assms k(1)] have "k * c < length xs" .
    with k(2) assms show "ch \<noteq> [] \<and> length ch \<le> c" by (simp add: slice_def)
  qed
  have full: "\<forall>i. Suc i < length ?chunks \<longrightarrow> length (?chunks ! i) = c"
  proof (intro allI impI)
    fix i assume a: "Suc i < length ?chunks"
    then have "Suc i < ?m" by simp
    from ceil_div_tight [OF assms this] have "i * c + c < length xs" by simp
    moreover from a have "?chunks ! i = slice xs (i * c) (i * c + c)" by simp
    ultimately show "length (?chunks ! i) = c" by (simp add: slice_def)
  qed
  from eq cc len ne full show ?thesis by blast
qed

lemma ceil_ceil_le:
  assumes "0 < (w::nat)" and "0 < n"
  shows "(n + (n + w - 1) div w - 1) div ((n + w - 1) div w) \<le> w"
proof -
  let ?c = "(n + w - 1) div w"
  from ceil_div_covers [OF assms(1), of n] have cov: "n \<le> ?c * w" .
  with assms(2) have cpos: "0 < ?c" by (cases "?c = 0") simp_all
  have "n + ?c - 1 < ?c * w + ?c" using cov cpos by linarith
  then have "n + ?c - 1 < Suc w * ?c" by (simp add: mult.commute)
  then have "(n + ?c - 1) div ?c < Suc w" using cpos by (simp add: div_less_iff_less_mult)
  then show ?thesis by simp
qed

text \<open>
  Claim C5, as stated, asks for W chunks of size ceil(N/W). Five items for four
  workers are split by \<open>scrape_protocol_info_multithreaded\<close> into three chunks, and
  by \<open>run_gtr_search_to_excel\<close> into five chunks of one item each, where ceil(5/4)
  is 2.
\<close>

theorem chunks_count_counterexample:
  "multithreaded_chunks 4 [1, 2, 3, 4, 5 :: nat] = Inr [[1, 2], [3, 4], [5]]
   \<and> gtr_chunks 4 [1, 2, 3, 4, 5 :: nat] = Inr [[1], [2], [3], [4], [5]]"
  by (simp add: multithreaded_chunks_def gtr_chunks_def split_chunks_def py_range_def slice_def
      upt_conv_Cons)

text \<open>
  Claim C5, amended: for every item list of size N and worker count W of at least 1,
  static partitioning splits the items into contiguous non-empty chunks whose
  concatenation is the original list, each item appearing exactly once. In
  \<open>scrape_protocol_info_multithreaded\<close> there are at most W chunks, of size
  ceil(N/W) except for a last one that may be shorter; in \<open>run_gtr_search_to_excel\<close>
  the chunks have size max(1, floor(N/W)) except for a last one that may be
  shorter, and their number is N divided by that size, rounded up.
\<close>

theorem chunks_partition:
  assumes "1 \<le> w"
  shows "\<exists>chunks gchunks.
           multithreaded_chunks w xs = Inr chunks
           \<and> concat chunks = xs
           \<and> length chunks \<le> w
           \<and> (\<forall>ch \<in> set chunks. ch \<noteq> [] \<and> length ch \<le> (length xs + w - 1) div w)
           \<and> (\<forall>i. Suc i < length chunks \<longrightarrow> length (chunks ! i) = (length xs + w - 1) div w)
           \<and> gtr_chunks w xs = Inr gchunks
           \<and> concat gchunks = xs
           \<and> length gchunks = (length xs + max 1 (length xs div w) - 1) div max 1 (length xs div w)
           \<and> (\<forall>ch \<in> set gchunks. ch \<noteq> [] \<and> length ch \<le> max 1 (length xs div w))
           \<and> (\<forall>i. Suc i < length gchunks \<longrightarrow> length (gchunks ! i) = max 1 (length xs div w))"
proof -
  from assms have w: "0 < w" by simp
  let ?c = "(length xs + w - 1) div w"
  have "\<exists>chunks. multithreaded_chunks w xs = Inr chunks
           \<and> concat chunks = xs
           \<and> length chunks \<le> w
           \<and> (\<forall>ch \<in> set chunks. ch \<noteq> [] \<and> length ch \<le> ?c)
           \<and> (\<forall>i. Suc i < length chunks \<longrightarrow> length (chunks ! i) = ?c)"
  proof (cases "xs = []")
    case True
    with w show ?thesis by (simp add: multithreaded_chunks_def)
  next
    case False
    then have n: "0 < length xs" by simp
    from ceil_div_covers [OF w, of "length xs"] n have cpos: "0 < ?c"
      by (cases "?c = 0") simp_all
    from split_chunks_partition [OF cpos, of xs] obtain chunks where
      c: "split_chunks xs ?c = Inr chunks" "concat chunks = xs"
         "length chunks = (length xs + ?c - 1) div ?c"
         "\<forall>ch \<in> set chunks. ch \<noteq> [] \<and> length ch \<le> ?c"
         "\<forall>i. Suc i < length chunks \<longrightarrow> length (chunks ! i) = ?c"
      by blast
    from c(1) w False have "multithreaded_chunks w xs = Inr chunks"
      by (simp add: multithreaded_chunks_def Let_def)
    moreover from c(3) ceil_ceil_le [OF w n] have "length chunks \<le> w" by simp
    ultimately show ?thesis using c(2) c(4) c(5) by blast
  qed
  moreover
  have "\<exists>gchunks. gtr_chunks w xs = Inr gchunks \<and> concat gchunks = xs
           \<and> length gchunks = (length xs + max 1 (length xs div w) - 1) div max 1 (length xs div w)
           \<and> (\<forall>ch \<in> set gchunks. ch \<noteq> [] \<and> length ch \<le> max 1 (length xs div w))
           \<and> (\<forall>i. Suc i < length gchunks \<longrightarrow> length (gchunks ! i) = max 1 (length xs div w))"
  proof -
    let ?g = "max 1 (length xs div w)"
    have "0 < ?g" by simp
    from split_chunks_partition [OF this, of xs] obtain gchunks where
      g: "split_chunks xs ?g = Inr gchunks" "concat gchunks = xs"
         "length gchunks = (length xs + ?g - 1) div ?g"
         "\<forall>ch \<in> set gchunks. ch \<noteq> [] \<and> length ch \<le> ?g"
         "\<forall>i. Suc i < length gchunks \<longrightarrow> length (gchunks ! i) = ?g"
      by blast
    from g(1) w have "gtr_chunks w xs = Inr gchunks" by (simp add: gtr_chunks_def Let_def)
    with g(2) g(3) g(4) g(5) show ?thesis by blast
  qed
  ultimately show ?thesis by blast
qed

theorem chunks_partition_witness:
  "(1::nat) \<le> 3
   \<and> multithreaded_chunks 3 [1, 2, 3, 4, 5, 6, 7 :: nat] = Inr [[1, 2, 3], [4, 5, 6], [7]]
   \<and> concat [[1, 2, 3], [4, 5, 6], [7 :: nat]] = [1, 2, 3, 4, 5, 6, 7]
   \<and> gtr_chunks 3 [1, 2, 3, 4, 5, 6, 7 :: nat] = Inr [[1, 2], [3, 4], [5, 6], [7]]"
proof -
  have h: "(1::nat) \<le> 3" by simp
  have a: "multithreaded_chunks 3 [1, 2, 3, 4, 5, 6, 7 :: nat] = Inr [[1, 2, 3], [4, 5, 6], [7]]"
    by (simp add: multithreaded_chunks_def split_chunks_def py_range_def slice_def upt_conv_Cons)
  have b: "gtr_chunks 3 [1, 2, 3, 4, 5, 6, 7 :: nat] = Inr [[1, 2], [3, 4], [5, 6], [7]]"
    by code_simp
  from chunks_partition [OF h, of "[1, 2, 3, 4, 5, 6, 7 :: nat]"] a
  have "concat [[1, 2, 3], [4, 5, 6], [7 :: nat]] = [1, 2, 3, 4, 5, 6, 7]" by auto
  with h a b show ?thesis by blast
qed

section \<open>Properties of the protocol link order\<close>

lemma sorted_low_keys_first:
  assumes "sorted (map k ys)" and "\<forall>y \<in> set ys. s \<le> k y"
  shows "ys = filter (\<lambda>y. k y = s) ys @ filter (\<lambda>y. k y \<noteq> s) ys"
  using assms
proof (induction ys)
  case Nil
  show ?case by simp
next
  case (Cons y ys)
  from Cons.prems have srt: "sorted (map k ys)" and low: "\<forall>z \<in> set ys. s \<le> k z"
    and le: "\<forall>z \<in> set ys. k y \<le> k z" and sy: "s \<le> k y"
    by auto
  from Cons.IH [OF srt low] have ih: "ys = filter (\<lambda>y. k y = s) ys @ filter (\<lambda>y. k y \<noteq> s) ys" .
  show ?case
  proof (cases "k y = s")
    case True
    with ih show ?thesis by simp
  next
    case False
    with sy have "s < k y" by simp
    with le have "\<forall>z \<in> set ys. k z \<noteq> s" by fastforce
    then have "filter (\<lambda>y. k y = s) ys = []" "filter (\<lambda>y. k y \<noteq> s) ys = ys"
      by (simp_all add: filter_empty_conv)
    with False show ?thesis by simp
  qed
qed

lemma sort_newest_first_mset: "mset (sort_newest_first items) = mset items"
  by (simp add: sort_newest_first_def)

lemma sort_newest_first_sorted: "sorted (rev (map item_key (sort_newest_first items)))"
  by (simp add: sort_newest_first_def rev_map)

lemma sort_newest_first_stable:
  "filter (\<lambda>d. item_key d = k) (sort_newest_first items) = filter (\<lambda>d. item_key d = k) items"
proof -
  have "filter (\<lambda>d. item_key d = k) (sort_newest_first items)
        = rev (filter (\<lambda>d. item_key d = k) (sort_key item_key (rev items)))"
    by (simp add: sort_newest_first_def rev_filter)
  also have "\<dots> = rev (filter (\<lambda>d. item_key d = k) (rev items))"
    by (simp only: sort_key_stable)
  also have "\<dots> = filter (\<lambda>d. item_key d = k) items"
    by (simp add: rev_filter)
  finally show ?thesis .
qed

lemma undated_key: "date d = None \<Longrightarrow> item_key d = naive_key (mk_date 1900 1 1)"
  by (simp add: item_key_def)

text \<open>
  Claim C8, as stated, places the entries without a date last for every list. The
  key of such an entry is 1 January 1900, so an entry dated January 1850 (which
  \<open>parse_month_year\<close> gives for the text \<open>Jan 1850\<close>) is placed after it.
\<close>

theorem sort_newest_first_counterexample:
  "sort_newest_first
     [\<lparr>title = ''Protocol v1'', url = ''a.pdf'', date = Some (mk_date 1850 1 1)\<rparr>,
      \<lparr>title = ''Protocol v2'', url = ''b.pdf'', date = None\<rparr>]
   = [\<lparr>title = ''Protocol v2'', url = ''b.pdf'', date = None\<rparr>,
      \<lparr>title = ''Protocol v1'', url = ''a.pdf'', date = Some (mk_date 1850 1 1)\<rparr>]"
  by (simp add: sort_newest_first_def item_key_def naive_key_def mk_date_def)

lemma undated_iff:
  assumes late: "\<forall>d \<in> set items. \<forall>dt. date d = Some dt \<longrightarrow> naive_key (mk_date 1900 1 1) < naive_key dt"
    and "d \<in> set items"
  shows "item_key d = naive_key (mk_date 1900 1 1) \<longleftrightarrow> date d = None"
proof (cases "date d")
  case None
  then show ?thesis by (simp add: item_key_def)
next
  case (Some dt)
  with assms have "naive_key (mk_date 1900 1 1) < naive_key dt" by blast
  with Some show ?thesis by (simp add: item_key_def)
qed

lemma sentinel_low:
  assumes late: "\<forall>d \<in> set items. \<forall>dt. date d = Some dt \<longrightarrow> naive_key (mk_date 1900 1 1) < naive_key dt"
    and "d \<in> set items"
  shows "naive_key (mk_date 1900 1 1) \<le> item_key d"
proof (cases "date d")
  case None
  then show ?thesis by (simp add: item_key_def)
next
  case (Some dt)
  with assms have "naive_key (mk_date 1900 1 1) < naive_key dt" by blast
  with Some show ?thesis by (simp add: item_key_def)
qed

lemma set_sort_newest_first: "set (sort_newest_first items) = set items"
  by (simp add: sort_newest_first_def)

lemma undated_last:
  assumes late: "\<forall>d \<in> set items. \<forall>dt. date d = Some dt \<longrightarrow> naive_key (mk_date 1900 1 1) < naive_key dt"
  shows "sort_newest_first items
         = filter (\<lambda>d. date d \<noteq> None) (sort_newest_first items) @ filter (\<lambda>d. date d = None) items"
proof -
  define s where "s = naive_key (mk_date 1900 1 1)"
  define out where "out = sort_newest_first items"
  define ys where "ys = rev out"
  have set_out: "set out = set items" by (simp add: out_def set_sort_newest_first)
  have srt: "sorted (map item_key ys)"
    using sort_newest_first_sorted [of items] by (simp add: ys_def out_def rev_map)
  have low: "\<forall>y \<in> set ys. s \<le> item_key y"
    using sentinel_low [OF late] set_out by (simp add: ys_def s_def)
  have split: "ys = filter (\<lambda>y. item_key y = s) ys @ filter (\<lambda>y. item_key y \<noteq> s) ys"
    using sorted_low_keys_first [of item_key ys s] srt low by blast
  have "out = rev ys" by (simp add: ys_def)
  also have "\<dots> = rev (filter (\<lambda>y. item_key y = s) ys @ filter (\<lambda>y. item_key y \<noteq> s) ys)"
    using split by simp
  also have "\<dots> = rev (filter (\<lambda>y. item_key y \<noteq> s) ys) @ rev (filter (\<lambda>y. item_key y = s) ys)"
    by (rule rev_append)
  also have "rev (filter (\<lambda>y. item_key y \<noteq> s) ys) = filter (\<lambda>y. item_key y \<noteq> s) out"
    by (simp add: ys_def rev_filter)
  also have "rev (filter (\<lambda>y. item_key y = s) ys) = filter (\<lambda>y. item_key y = s) out"
    by (simp add: ys_def rev_filter)
  finally have a: "out = filter (\<lambda>y. item_key y \<noteq> s) out @ filter (\<lambda>y. item_key y = s) out" .
  have b: "filter (\<lambda>y. item_key y = s) out = filter (\<lambda>y. item_key y = s) items"
    unfolding out_def by (rule sort_newest_first_stable)
  have c: "filter (\<lambda>y. item_key y = s) items = filter (\<lambda>d. date d = None) items"
    unfolding s_def by (rule filter_cong [OF refl]) (rule undated_iff [OF late])
  have d: "filter (\<lambda>y. item_key y \<noteq> s) out = filter (\<lambda>d. date d \<noteq> None) out"
  proof (rule filter_cong [OF refl])
    fix x assume "x \<in> set out"
    then have "x \<in> set items" using set_out by simp
    from undated_iff [OF late this] show "(item_key x \<noteq> s) = (date x \<noteq> None)"
      by (simp add: s_def)
  qed
  from a b c d have "out = filter (\<lambda>d. date d \<noteq> None) out @ filter (\<lambda>d. date d = None) items"
    by simp
  then show ?thesis by (simp add: out_def)
qed

text \<open>
  Claim C8, amended: for every list of entries, the result has the same entries,
  ordered newest first by their key, where the key of an entry without a parsed date
  is 1 January 1900; entries with equal keys keep their page order; and when every
  parsed date is later than 1 January 1900, the entries without a date come last, in
  page order. Dates \<open>[None, 2021-05, 2019-01]\<close> give \<open>[2021-05, 2019-01, None]\<close>.
\<close>

theorem sort_newest_first_order:
  "mset (sort_newest_first items) = mset items
   \<and> sorted (rev (map item_key (sort_newest_first items)))
   \<and> filter (\<lambda>d. item_key d = k) (sort_newest_first items) = filter (\<lambda>d. item_key d = k) items
   \<and> ((\<forall>d \<in> set items. \<forall>dt. date d = Some dt \<longrightarrow> naive_key (mk_date 1900 1 1) < naive_key dt)
        \<longrightarrow> sort_newest_first items
            = filter (\<lambda>d. date d \<noteq> None) (sort_newest_first items) @ filter (\<lambda>d. date d = None) items)
   \<and> map date (sort_newest_first
        [\<lparr>title = t1, url = u1, date = None\<rparr>,
         \<lparr>title = t2, url = u2, date = Some (mk_date 2021 5 1)\<rparr>,
         \<lparr>title = t3, url = u3, date = Some (mk_date 2019 1 1)\<rparr>])
      = [Some (mk_date 2021 5 1), Some (mk_date 2019 1 1), None]"
proof (intro conjI impI)
  show "mset (sort_newest_first items) = mset items" by (rule sort_newest_first_mset)
next
  show "sorted (rev (map item_key (sort_newest_first items)))" by (rule sort_newest_first_sorted)
next
  show "filter (\<lambda>d. item_key d = k) (sort_newest_first items) = filter (\<lambda>d. item_key d = k) items"
    by (rule sort_newest_first_stable)
next
  assume "\<forall>d \<in> set items. \<forall>dt. date d = Some dt \<longrightarrow> naive_key (mk_date 1900 1 1) < naive_key dt"
  then show "sort_newest_first items
      = filter (\<lambda>d. date d \<noteq> None) (sort_newest_first items) @ filter (\<lambda>d. date d = None) items"
    by (rule undated_last)
next
  show "map date (sort_newest_first
        [\<lparr>title = t1, url = u1, date = None\<rparr>,
         \<lparr>title = t2, url = u2, date = Some (mk_date 2021 5 1)\<rparr>,
         \<lparr>title = t3, url = u3, date = Some (mk_date 2019 1 1)\<rparr>])
      = [Some (mk_date 2021 5 1), Some (mk_date 2019 1 1), None]"
    by (simp add: sort_newest_first_def item_key_def naive_key_def mk_date_def)
qed

theorem sort_newest_first_order_witness:
  "sort_newest_first
       [\<lparr>title = ''A'', url = ''a'', date = None\<rparr>,
        \<lparr>title = ''B'', url = ''b'', date = Some (mk_date 2021 5 1)\<rparr>,
        \<lparr>title = ''C'', url = ''c'', date = None\<rparr>,
        \<lparr>title = ''D'', url = ''d'', date = Some (mk_date 2021 5 1)\<rparr>]
     = filter (\<lambda>d. date d \<noteq> None) (sort_newest_first
       [\<lparr>title = ''A'', url = ''a'', date = None\<rparr>,
        \<lparr>title = ''B'', url = ''b'', date = Some (mk_date 2021 5 1)\<rparr>,
        \<lparr>title = ''C'', url = ''c'', date = None\<rparr>,
        \<lparr>title = ''D'', url = ''d'', date = Some (mk_date 2021 5 1)\<rparr>])
       @ filter (\<lambda>d. date d = None)
       [\<lparr>title = ''A'', url = ''a'', date = None\<rparr>,
        \<lparr>title = ''B'', url = ''b'', date = Some (mk_date 2021 5 1)\<rparr>,
        \<lparr>title = ''C'', url = ''c'', date = None\<rparr>,
        \<lparr>title = ''D'', url = ''d'', date = Some (mk_date 2021 5 1)\<rparr>]
   \<and> sort_newest_first
       [\<lparr>title = ''A'', url = ''a'', date = None\<rparr>,
        \<lparr>title = ''B'', url = ''b'', date = Some (mk_date 2021 5 1)\<rparr>,
        \<lparr>title = ''C'', url = ''c'', date = None\<rparr>,
        \<lparr>title = ''D'', url = ''d'', date = Some (mk_date 2021 5 1)\<rparr>]
     = [\<lparr>title = ''B'', url = ''b'', date = Some (mk_date 2021 5 1)\<rparr>,
        \<lparr>title = ''D'', url = ''d'', date = Some (mk_date 2021 5 1)\<rparr>,
        \<lparr>title = ''A'', url = ''a'', date = None\<rparr>,
        \<lparr>title = ''C'', url = ''c'', date = None\<rparr>]"
proof -
  let ?items = "[\<lparr>title = ''A'', url = ''a'', date = None\<rparr>,
        \<lparr>title = ''B'', url = ''b'', date = Some (mk_date 2021 5 1)\<rparr>,
        \<lparr>title = ''C'', url = ''c'', date = None\<rparr>,
        \<lparr>title = ''D'', url = ''d'', date = Some (mk_date 2021 5 1)\<rparr>]"
  have h: "\<forall>d \<in> set ?items. \<forall>dt. date d = Some dt \<longrightarrow> naive_key (mk_date 1900 1 1) < naive_key dt"
    by (simp add: naive_key_def mk_date_def)
  have e: "sort_newest_first ?items
     = [\<lparr>title = ''B'', url = ''b'', date = Some (mk_date 2021 5 1)\<rparr>,
        \<lparr>title = ''D'', url = ''d'', date = Some (mk_date 2021 5 1)\<rparr>,
        \<lparr>title = ''A'', url = ''a'', date = None\<rparr>,
        \<lparr>title = ''C'', url = ''c'', date = None\<rparr>]"
    by (simp add: sort_newest_first_def item_key_def naive_key_def mk_date_def)
  have imp: "(\<forall>d \<in> set ?items. \<forall>dt. date d = Some dt \<longrightarrow> naive_key (mk_date 1900 1 1) < naive_key dt)
     \<longrightarrow> sort_newest_first ?items
        = filter (\<lambda>d. date d \<noteq> None) (sort_newest_first ?items) @ filter (\<lambda>d. date d = None) ?items"
    by (rule conjunct1 [OF conjunct2 [OF conjunct2 [OF conjunct2 [OF sort_newest_first_order [of ?items]]]]])
  from imp h have f: "sort_newest_first ?items
        = filter (\<lambda>d. date d \<noteq> None) (sort_newest_first ?items) @ filter (\<lambda>d. date d = None) ?items"
    by (rule mp)
  show ?thesis
    apply (rule conjI)
     apply (rule f)
    apply (rule e)
    done
qed

section \<open>Properties of the best date\<close>

lemma first_parsed_Cons:
  "first_parsed F (bag k # cs) =
     (case usable F bag k of None \<Rightarrow> first_parsed F cs | Some d \<Rightarrow> Some d)"
  by (simp add: usable_def parse_candidate_def split: option.splits sum.splits)

lemma strptime_example: "strptime_ymd (take 10 ''2021-03-01'') = Inr (mk_date 2021 3 1)"
  by (simp add: strptime_ymd_def match_year_def match_month_def match_day_def isdigit_def
      digit_val_def days_in_month_def is_leap_def)

text \<open>
  Claim C7: for every field bag (and whatever \<open>fromisoformat\<close> accepts),
  \<open>choose_best_date\<close> returns the date of the first candidate, in the order
  start_date, award_date, end_date, record_timestamp, that is present, not empty and
  parses as a calendar date or else as a full timestamp, and \<open>None\<close> when there is
  no such candidate; a bag with start_date 2021-03-01 and award_date 2020-01-01
  resolves to 2021-03-01.
\<close>

theorem choose_best_date_first_usable:
  "choose_best_date F bag = best_date_spec F bag
   \<and> (choose_best_date F bag = None
        \<longleftrightarrow> usable F bag ''start_date'' = None \<and> usable F bag ''award_date'' = None
            \<and> usable F bag ''end_date'' = None \<and> usable F bag ''record_timestamp'' = None)
   \<and> choose_best_date F
        [''award_date'' \<mapsto> ''2020-01-01'', ''start_date'' \<mapsto> ''2021-03-01'']
      = Some (mk_date 2021 3 1)"
proof (intro conjI)
  show "choose_best_date F bag = best_date_spec F bag"
    by (simp add: choose_best_date_def best_date_spec_def first_parsed_Cons List.map_filter_simps
        del: first_parsed.simps(2) split: option.splits)
next
  show "choose_best_date F bag = None
        \<longleftrightarrow> usable F bag ''start_date'' = None \<and> usable F bag ''award_date'' = None
            \<and> usable F bag ''end_date'' = None \<and> usable F bag ''record_timestamp'' = None"
    by (simp add: choose_best_date_def first_parsed_Cons del: first_parsed.simps(2)
        split: option.splits)
next
  have "first_parsed F (Some ''2021-03-01'' # cs) = Some (mk_date 2021 3 1)" for cs
    using strptime_example by simp
  then show "choose_best_date F
        [''award_date'' \<mapsto> ''2020-01-01'', ''start_date'' \<mapsto> ''2021-03-01'']
      = Some (mk_date 2021 3 1)"
    by (simp add: choose_best_date_def)
qed

section \<open>Properties of the batch workers\<close>

lemma scrape_batch_length: "length (scrape_batch strftime page batch) = length batch"
  by (induction batch) (auto split: sum.splits)

lemma scrape_batch_rows: "map award_row (scrape_batch strftime page batch) = batch"
  by (induction batch) (auto simp: award_result_of_def split: sum.splits)

lemma scrape_batch_degrades:
  "i < length batch \<Longrightarrow> page (batch ! i) = Inl e \<Longrightarrow>
     scrape_batch strftime page batch ! i = award_result_of strftime (batch ! i) [] [] []"
proof (induction batch arbitrary: i)
  case Nil
  then show ?case by simp
next
  case (Cons row batch)
  show ?case
  proof (cases i)
    case 0
    with Cons.prems show ?thesis by simp
  next
    case (Suc j)
    with Cons.prems have "j < length batch" "page (batch ! j) = Inl e" by simp_all
    from Cons.IH [OF this] Suc show ?thesis by (simp split: sum.splits)
  qed
qed

text \<open>
  Claim C4 holds of \<open>scrape_batch\<close> in multithread_monolith.py (the three lemmas
  above: one row per item, in order, and the row of an item whose page raised has
  the empty fields). It fails for \<open>scrape_gtr_batch\<close> in gtr_scraper.py. With two
  projects of which the page of \<open>P1\<close> raises: when \<open>P1\<close> comes first, the worker is
  left by \<open>UnboundLocalError\<close> and \<open>P2\<close> is never visited; collected with a second
  worker that returned, the rows of the failed worker are absent; when \<open>P1\<close> comes
  second, its row carries the funded value of \<open>P2\<close>.
\<close>

theorem scrape_gtr_batch_aborts:
  "scrape_gtr_batch (\<lambda>r. if r = ''P1'' then Inl ScrapeError else Inr ([''Ada''], [], ''5'')) [''P1'', ''P2'']
     = Inl UnboundLocalError
   \<and> gtr_collect
        [scrape_gtr_batch (\<lambda>r. if r = ''P1'' then Inl ScrapeError else Inr ([''Ada''], [], ''5'')) [''P1'', ''P2''],
         scrape_gtr_batch (\<lambda>r. if r = ''P1'' then Inl ScrapeError else Inr ([''Ada''], [], ''5'')) [''P3'']]
     = [gtr_result_of ''P3'' [''Ada''] [] ''5'']
   \<and> scrape_gtr_batch (\<lambda>r. if r = ''P1'' then Inl ScrapeError else Inr ([''Ada''], [], ''5'')) [''P2'', ''P1'']
     = Inr [gtr_result_of ''P2'' [''Ada''] [] ''5'', gtr_result_of ''P1'' [] [] ''5'']"
  by (simp add: scrape_gtr_batch_def gtr_collect_def)

section \<open>Properties of the collected records\<close>

lemma monolith_enriched_in_order:
  assumes "candidates \<noteq> []"
  shows "\<exists>chunks rows. monolith_chunks candidates = Inr chunks
           \<and> monolith_enriched strftime page [0 ..< length chunks] candidates = Inr rows
           \<and> map award_row rows = candidates"
proof -
  define n where "n = min 4 (max 1 (length candidates))"
  define c where "c = (length candidates + n - 1) div n"
  have np: "0 < n" by (simp add: n_def)
  from ceil_div_covers [OF np, of "length candidates"] have "length candidates \<le> c * n"
    by (simp add: c_def)
  with assms have "0 < c" by (cases "c = 0") simp_all
  from split_chunks_partition [OF this, of candidates] obtain chunks where
    c: "split_chunks candidates c = Inr chunks" "concat chunks = candidates"
    by blast
  then have m: "monolith_chunks candidates = Inr chunks"
    by (simp add: monolith_chunks_def Let_def c_def n_def)
  let ?rows = "concat (map (scrape_batch strftime page) chunks)"
  have "map (\<lambda>i. map (scrape_batch strftime page) chunks ! i) [0 ..< length chunks]
        = map (scrape_batch strftime page) chunks"
    by (rule nth_equalityI) simp_all
  then have "as_completed [0 ..< length chunks] (map (scrape_batch strftime page) chunks)
        = map (scrape_batch strftime page) chunks"
    by (simp add: as_completed_def)
  with m have e: "monolith_enriched strftime page [0 ..< length chunks] candidates = Inr ?rows"
    by (simp add: monolith_enriched_def)
  have "map award_row ?rows = concat (map (\<lambda>ch. map award_row (scrape_batch strftime page ch)) chunks)"
    by (simp add: map_concat comp_def)
  also have "\<dots> = concat chunks" by (simp add: scrape_batch_rows)
  finally have "map award_row ?rows = candidates" using c(2) by simp
  with m e show ?thesis by blast
qed

text \<open>
  Claim C2 fails for \<open>run_search_to_excel\<close> in multithread_monolith.py. Five
  candidates are cut into the chunks \<open>[1, 2]\<close>, \<open>[3, 4]\<close> and \<open>[5]\<close>; when the second
  worker ends before the first, the collected records are in the order 3, 4, 1, 2,
  5 and not in the order of the candidates. With no candidate at all, the chunk
  size is 0, \<open>range\<close> raises \<open>ValueError\<close> and no record list is produced. (When the
  workers end in the order in which they were started, the order of the candidates
  is kept: lemma \<open>monolith_enriched_in_order\<close>.)
\<close>

theorem monolith_enriched_out_of_order:
  "monolith_chunks [1, 2, 3, 4, 5 :: nat] = Inr [[1, 2], [3, 4], [5]]
   \<and> (case monolith_enriched (\<lambda>d. []) (\<lambda>r. Inr ([], [], [])) [1, 0, 2] [1, 2, 3, 4, 5 :: nat] of
        Inl e \<Rightarrow> []
      | Inr rows \<Rightarrow> map award_row rows) = [3, 4, 1, 2, 5]
   \<and> monolith_enriched (\<lambda>d. []) (\<lambda>r. Inr ([], [], [])) [] ([] :: nat list) = Inl ValueError"
proof -
  have c: "monolith_chunks [1, 2, 3, 4, 5 :: nat] = Inr [[1, 2], [3, 4], [5]]"
    by code_simp
  have e: "monolith_chunks ([] :: nat list) = Inl ValueError"
    by (simp add: monolith_chunks_def split_chunks_def py_range_def)
  have r: "monolith_enriched (\<lambda>d. []) (\<lambda>r. Inr ([], [], [])) [1, 0, 2] [1, 2, 3, 4, 5 :: nat]
      = Inr (concat (as_completed [1, 0, 2]
               (map (scrape_batch (\<lambda>d. []) (\<lambda>r. Inr ([], [], []))) [[1, 2], [3, 4], [5]])))"
    unfolding monolith_enriched_def c by simp
  have o: "(case monolith_enriched (\<lambda>d. []) (\<lambda>r. Inr ([], [], [])) [1, 0, 2] [1, 2, 3, 4, 5 :: nat] of
        Inl e \<Rightarrow> []
      | Inr rows \<Rightarrow> map award_row rows) = [3, 4, 1, 2, 5]"
    unfolding r by (simp add: as_completed_def award_result_of_def)
  have z: "monolith_enriched (\<lambda>d. []) (\<lambda>r. Inr ([], [], [])) [] ([] :: nat list) = Inl ValueError"
    unfolding monolith_enriched_def e by simp
  from c o z show ?thesis by blast
qed

section \<open>Properties of the protocol scrape and of the merge\<close>

text \<open>
  Claim C6 fails for \<open>scrape_protocol_info_multithreaded\<close>. The test
  \<open>len(protocol_rows) >= max_rows\<close> looks at the shared list, but a worker appends
  to \<open>local_results\<close> and extends the shared list only after its loop. With a cap of
  1 and three records that each have a protocol, a single worker sees an empty
  shared list at each test and returns three rows, where the sequential
  \<open>scrape_protocol_info\<close> returns one and requests one page. With the default of
  four threads and eight such records, when every worker makes its second test
  before any worker has ended, eight rows are returned for a cap of 1, more than
  the four items that can be in flight.
\<close>

theorem multithreaded_cap_overshoot:
  "(case scrape_protocol_info_multithreaded (\<lambda>u. Inr [sample_link]) (\<lambda>d. []) (\<lambda>w i. 0) [0]
           [sample_record ''A'' ''u1'', sample_record ''B'' ''u2'', sample_record ''C'' ''u3''] 1 1 of
      Inl e \<Rightarrow> []
    | Inr rows \<Rightarrow> map (\<lambda>r. dict_get r ''Award ID'' PNone) rows) = [PStr ''A'', PStr ''B'', PStr ''C'']
   \<and> (case scrape_protocol_info (\<lambda>u. Inr [sample_link]) (\<lambda>d. [])
           [sample_record ''A'' ''u1'', sample_record ''B'' ''u2'', sample_record ''C'' ''u3''] 1 of
      Inl e \<Rightarrow> ([], [])
    | Inr (rows, fetched) \<Rightarrow> (map (\<lambda>r. dict_get r ''Award ID'' PNone) rows, fetched))
     = ([PStr ''A''], [PStr ''u1''])
   \<and> (case scrape_protocol_info_multithreaded (\<lambda>u. Inr [sample_link]) (\<lambda>d. []) (\<lambda>w i. 0) [0, 1, 2, 3]
           [sample_record ''A'' ''u1'', sample_record ''B'' ''u2'', sample_record ''C'' ''u3'',
            sample_record ''D'' ''u4'', sample_record ''E'' ''u5'', sample_record ''F'' ''u6'',
            sample_record ''G'' ''u7'', sample_record ''H'' ''u8''] 1 4 of
      Inl e \<Rightarrow> []
    | Inr rows \<Rightarrow> map (\<lambda>r. dict_get r ''Award ID'' PNone) rows)
     = [PStr ''A'', PStr ''B'', PStr ''C'', PStr ''D'', PStr ''E'', PStr ''F'', PStr ''G'', PStr ''H'']"
  by code_simp

end
